theory Spec2Isabelle
  imports Main "HOL-Library.Word" "HOL-Library.Sublist" "HOL-Library.AList"
begin

section \<open>Text\<close>

text \<open>
  A JavaScript string is a sequence of UTF-16 code units. File contents are modelled as the
  text that \<^verbatim>\<open>readFileSync(p).toString()\<close> yields and that \<^verbatim>\<open>writeFileSync(p, text)\<close>
  stores. Literals of the source are ASCII and written through \<open>js\<close>.
\<close>

type_synonym jschar = "16 word"
type_synonym jsstring = "jschar list"

definition js :: "string \<Rightarrow> jsstring" where
  "js s = map of_char s"

definition newline :: jschar where
  "newline = 0x0A"

text \<open>
  The regular expression of \<^verbatim>\<open>tinaSetup\<close> is \<^verbatim>\<open>/^.*import.*\.css("|').*$/gm\<close>.
  Under the \<^verbatim>\<open>m\<close> flag \<^verbatim>\<open>^\<close> and \<^verbatim>\<open>$\<close> match at the line terminators of
  ECMAScript (LF, CR, U+2028, U+2029), and \<^verbatim>\<open>.\<close> matches every code unit but those.
\<close>

definition isLineTerminator :: "jschar \<Rightarrow> bool" where
  "isLineTerminator c \<longleftrightarrow> c = 0x0A \<or> c = 0x0D \<or> c = 0x2028 \<or> c = 0x2029"

text \<open>The lines of a text: the maximal runs of code units between line terminators.\<close>

fun jsLines :: "jsstring \<Rightarrow> jsstring list" where
  "jsLines [] = [[]]"
| "jsLines (c # cs) =
     (if isLineTerminator c then [] # jsLines cs
      else (case jsLines cs of [] \<Rightarrow> [[c]] | l # ls \<Rightarrow> (c # l) # ls))"

text \<open>\<open>afterFirst pat xs\<close> is what follows the first occurrence of \<open>pat\<close> in \<open>xs\<close>.\<close>

fun afterFirst :: "'a list \<Rightarrow> 'a list \<Rightarrow> 'a list option" where
  "afterFirst pat [] = (if pat = [] then Some [] else None)"
| "afterFirst pat (c # cs) =
     (if prefix pat (c # cs) then Some (drop (length pat) (c # cs)) else afterFirst pat cs)"

text \<open>
  A line is matched by \<^verbatim>\<open>.*import.*\.css("|').*\<close> when \<^verbatim>\<open>import\<close> occurs in it and,
  somewhere after that occurrence, \<^verbatim>\<open>.css\<close> immediately followed by a double or a single
  quote. A match of the whole expression starts at a line start, cannot cross a line
  terminator and ends at a line end: it is one whole line.
\<close>

definition styleImportLine :: "jsstring \<Rightarrow> bool" where
  "styleImportLine l =
     (case afterFirst (js ''import'') l of
        None \<Rightarrow> False
      | Some r \<Rightarrow> afterFirst (js ''.css'' @ [0x22]) r \<noteq> None
                \<or> afterFirst (js ''.css'' @ [0x27]) r \<noteq> None)"

text \<open>\<^verbatim>\<open>[...text.matchAll(re)].map((x) => x[0])\<close>: the matched lines, in the order of the text.\<close>

definition styleImports :: "jsstring \<Rightarrow> jsstring list" where
  "styleImports text = filter styleImportLine (jsLines text)"

text \<open>\<^verbatim>\<open>Array.prototype.join\<close>.\<close>

fun joinWith :: "'a list \<Rightarrow> 'a list list \<Rightarrow> 'a list" where
  "joinWith sep [] = []"
| "joinWith sep [x] = x"
| "joinWith sep (x # y # ys) = x @ sep @ joinWith sep (y # ys)"

section \<open>File system\<close>

text \<open>
  A path is the list of its segments from the file-system root; \<^verbatim>\<open>path.join\<close> appends
  segments and drops the empty ones (\<^verbatim>\<open>p.join(baseDir, useingSrc ? 'src' : '', 'pages')\<close>).
  The file system is a map from paths to nodes; the root \<open>[]\<close> is a directory in every
  state of a real system, and so is the parent of every node. Permissions and symbolic
  links are not modelled.
\<close>

type_synonym path = "string list"

datatype node = Dir | File jsstring

type_synonym fsys = "path \<rightharpoonup> node"

definition pjoin :: "path \<Rightarrow> string list \<Rightarrow> path" where
  "pjoin base segs = base @ filter (\<lambda>seg. seg \<noteq> []) segs"

datatype exitStatus = Exited nat | Killed

datatype error =
    ENOENT path
  | ENOTDIR path
  | EISDIR path
  | EEXIST path
  | SyntaxError
  | TypeError
  | Rejection

text \<open>\<^verbatim>\<open>fs.existsSync\<close> and fs-extra's \<^verbatim>\<open>pathExistsSync\<close>: true of files and of directories.\<close>

definition existsSync :: "fsys \<Rightarrow> path \<Rightarrow> bool" where
  "existsSync fs p \<longleftrightarrow> fs p \<noteq> None"

definition pathExistsSync :: "fsys \<Rightarrow> path \<Rightarrow> bool" where
  "pathExistsSync fs p \<longleftrightarrow> fs p \<noteq> None"

definition readFileSync :: "fsys \<Rightarrow> path \<Rightarrow> error + jsstring" where
  "readFileSync fs p =
     (case fs p of
        None \<Rightarrow> Inl (ENOENT p)
      | Some Dir \<Rightarrow> Inl (EISDIR p)
      | Some (File text) \<Rightarrow> Inr text)"

text \<open>The path itself and the paths above it, the root left out.\<close>

definition ancestors :: "path \<Rightarrow> path list" where
  "ancestors p = map (\<lambda>n. take n p) [1..<Suc (length p)]"

text \<open>
  \<^verbatim>\<open>fs.writeFileSync\<close> creates or replaces a file in an existing directory. Without the
  directory it fails with \<^verbatim>\<open>ENOTDIR\<close> when a path above is a file, with \<^verbatim>\<open>ENOENT\<close>
  otherwise.
\<close>

definition fs_writeFileSync :: "path \<Rightarrow> jsstring \<Rightarrow> fsys \<Rightarrow> error + fsys" where
  "fs_writeFileSync p text fs =
     (case fs (butlast p) of
        None \<Rightarrow>
          Inl (if filter (\<lambda>q. case fs q of Some (File _) \<Rightarrow> True | _ \<Rightarrow> False)
                    (ancestors (butlast p)) = []
               then ENOENT p else ENOTDIR p)
      | Some (File _) \<Rightarrow> Inl (ENOTDIR p)
      | Some Dir \<Rightarrow>
          (case fs p of
             Some Dir \<Rightarrow> Inl (EISDIR p)
           | _ \<Rightarrow> Inr (fs(p \<mapsto> File text))))"

text \<open>
  \<^verbatim>\<open>fs.mkdirpSync\<close> makes the directory and every missing ancestor; it fails when the
  path or one of its ancestors is a file, and leaves existing directories as they are.
  (Where every node has its parent, nothing lies under a missing ancestor, so that a call
  that fails has made nothing.)
\<close>

definition fs_mkdirpSync :: "path \<Rightarrow> fsys \<Rightarrow> error + fsys" where
  "fs_mkdirpSync p fs =
     (case filter (\<lambda>q. case fs q of Some (File _) \<Rightarrow> True | _ \<Rightarrow> False) (ancestors p) of
        q # _ \<Rightarrow> Inl (if q = p then EEXIST p else ENOTDIR p)
      | [] \<Rightarrow> Inr (\<lambda>q. if q \<in> set (ancestors p) \<and> fs q = None then Some Dir else fs q))"

section \<open>JSON\<close>

text \<open>
  The values \<^verbatim>\<open>JSON.parse\<close> returns. A number is an IEEE 754 double, kept as its 64 bits.
  An object is the list of its own properties in property order, with distinct keys.
\<close>

datatype json =
    JNull
  | JBool bool
  | JNum "64 word"
  | JStr jsstring
  | JArr "json list"
  | JObj "(jsstring \<times> json) list"

definition isFiniteNumber :: "64 word \<Rightarrow> bool" where
  "isFiniteNumber w \<longleftrightarrow> take_bit 11 (drop_bit 52 w) \<noteq> (0x7FF :: 64 word)"

definition isNaN :: "64 word \<Rightarrow> bool" where
  "isNaN w \<longleftrightarrow> \<not> isFiniteNumber w \<and> take_bit 52 w \<noteq> 0"

text \<open>\<^verbatim>\<open>ToBoolean\<close>, as \<^verbatim>\<open>||\<close> applies it.\<close>

fun truthy :: "json \<Rightarrow> bool" where
  "truthy JNull = False"
| "truthy (JBool b) = b"
| "truthy (JNum w) = (take_bit 63 w \<noteq> 0 \<and> \<not> isNaN w)"
| "truthy (JStr s) = (s \<noteq> [])"
| "truthy (JArr _) = True"
| "truthy (JObj _) = True"

fun showNat :: "nat \<Rightarrow> jsstring" where
  "showNat n = (if n < 10 then [of_nat (48 + n)] else showNat (n div 10) @ [of_nat (48 + n mod 10)])"

text \<open>
  The own enumerable properties that an object spread \<^verbatim>\<open>{...v}\<close> copies: those of an
  object, the indexed elements of an array, the indexed code units of a string, none of
  \<^verbatim>\<open>null\<close>, a boolean or a number.
\<close>

fun ownEntries :: "json \<Rightarrow> (jsstring \<times> json) list" where
  "ownEntries (JObj kvs) = kvs"
| "ownEntries (JArr xs) = zip (map showNat [0..<length xs]) xs"
| "ownEntries (JStr s) = zip (map showNat [0..<length s]) (map (\<lambda>c. JStr [c]) s)"
| "ownEntries _ = []"

text \<open>
  \<^verbatim>\<open>pack.scripts\<close>: a \<^verbatim>\<open>TypeError\<close> on \<^verbatim>\<open>null\<close>, the own property of an object,
  \<^verbatim>\<open>undefined\<close> (\<open>None\<close>) when there is none; arrays, strings, numbers and booleans
  have no property of that name.
\<close>

fun getScripts :: "json \<Rightarrow> error + json option" where
  "getScripts JNull = Inl TypeError"
| "getScripts (JObj kvs) = Inr (map_of kvs (js ''scripts''))"
| "getScripts _ = Inr None"

subsection \<open>\<^verbatim>\<open>JSON.stringify\<close>\<close>

definition hexDigit :: "nat \<Rightarrow> jschar" where
  "hexDigit n = (if n < 10 then of_nat (48 + n) else of_nat (87 + n))"

definition unicodeEscape :: "jschar \<Rightarrow> jsstring" where
  "unicodeEscape c =
     [0x5C, 0x75, hexDigit (unat c div 4096 mod 16), hexDigit (unat c div 256 mod 16),
      hexDigit (unat c div 16 mod 16), hexDigit (unat c mod 16)]"

definition isHighSurrogate :: "jschar \<Rightarrow> bool" where
  "isHighSurrogate c \<longleftrightarrow> 0xD800 \<le> c \<and> c \<le> 0xDBFF"

definition isLowSurrogate :: "jschar \<Rightarrow> bool" where
  "isLowSurrogate c \<longleftrightarrow> 0xDC00 \<le> c \<and> c \<le> 0xDFFF"

definition quoteUnit :: "jschar \<Rightarrow> jsstring" where
  "quoteUnit c =
     (if c = 0x08 then [0x5C, 0x62]
      else if c = 0x09 then [0x5C, 0x74]
      else if c = 0x0A then [0x5C, 0x6E]
      else if c = 0x0C then [0x5C, 0x66]
      else if c = 0x0D then [0x5C, 0x72]
      else if c = 0x22 then [0x5C, 0x22]
      else if c = 0x5C then [0x5C, 0x5C]
      else if c < 0x20 then unicodeEscape c
      else [c])"

fun quoteUnits :: "jsstring \<Rightarrow> jsstring" where
  "quoteUnits [] = []"
| "quoteUnits [c] =
     (if isHighSurrogate c \<or> isLowSurrogate c then unicodeEscape c else quoteUnit c)"
| "quoteUnits (c # d # ds) =
     (if isHighSurrogate c \<and> isLowSurrogate d then c # d # quoteUnits ds
      else if isHighSurrogate c \<or> isLowSurrogate c then unicodeEscape c @ quoteUnits (d # ds)
      else quoteUnit c @ quoteUnits (d # ds))"

definition quoteJSONString :: "jsstring \<Rightarrow> jsstring" where
  "quoteJSONString s = [0x22] @ quoteUnits s @ [0x22]"

text \<open>
  \<open>serialize num gap indent v\<close> follows \<^verbatim>\<open>SerializeJSONProperty\<close> of ECMAScript on the
  values above; \<open>num\<close> prints a finite number (\<^verbatim>\<open>Number::toString\<close>).
\<close>

fun serialize :: "(64 word \<Rightarrow> jsstring) \<Rightarrow> jsstring \<Rightarrow> jsstring \<Rightarrow> json \<Rightarrow> jsstring" where
  "serialize num gap indent JNull = js ''null''"
| "serialize num gap indent (JBool b) = (if b then js ''true'' else js ''false'')"
| "serialize num gap indent (JNum w) = (if isFiniteNumber w then num w else js ''null'')"
| "serialize num gap indent (JStr s) = quoteJSONString s"
| "serialize num gap indent (JArr xs) =
     (let stepback = indent; indent = indent @ gap;
          partial = map (serialize num gap indent) xs
      in if partial = [] then js ''[]''
         else if gap = [] then js ''['' @ joinWith (js '','') partial @ js '']''
         else js ''['' @ [newline] @ indent @ joinWith (js '','' @ [newline] @ indent) partial
              @ [newline] @ stepback @ js '']'')"
| "serialize num gap indent (JObj kvs) =
     (let stepback = indent; indent = indent @ gap;
          partial = map (\<lambda>kv. quoteJSONString (fst kv) @ js '':''
                               @ (if gap = [] then [] else js '' '')
                               @ serialize num gap indent (snd kv)) kvs
      in if partial = [] then js ''{}''
         else if gap = [] then js ''{'' @ joinWith (js '','') partial @ js ''}''
         else js ''{'' @ [newline] @ indent @ joinWith (js '','' @ [newline] @ indent) partial
              @ [newline] @ stepback @ js ''}'')"

text \<open>\<^verbatim>\<open>JSON.stringify(value, null, space)\<close> with a number for \<^verbatim>\<open>space\<close>.\<close>

definition JSON_stringify :: "(64 word \<Rightarrow> jsstring) \<Rightarrow> nat \<Rightarrow> json \<Rightarrow> jsstring" where
  "JSON_stringify num space v = serialize num (replicate (min 10 space) 0x20) [] v"

section \<open>The world outside the scaffolder\<close>

text \<open>
  What a run prints and asks, in order. A logger call is recorded with the value of
  \<^verbatim>\<open>logger.level\<close> in force when it is made; the styled texts of the source are named
  by their message (\<open>AddingApp ext\<close> is \<^verbatim>\<open>Adding _app${ext} ...\<close>, \<open>HeadsUp text\<close> the
  instructions for manual integration around the generated entry point \<open>text\<close>). The
  second tick of the progress bar, a check mark in the source, is \<open>ProgressTick ''done''\<close>.
\<close>

datatype logMethod = Info | Warn

datatype message =
    SettingUpTina
  | AddingContentFolder
  | AddingApp string
  | HeadsUp jsstring
  | AddingContentFolderDone
  | UnableToAddAdmin
  | SetupDone

datatype event =
    Logger string logMethod message
  | ConsoleWarn exitStatus
  | ProgressTick string
  | Prompt string
  | TelemetryRecord string bool

record state =
  fsys :: fsys
  loggerLevel :: string
  events :: "event list"

text \<open>A stage returns normally (\<open>Done\<close>) or throws, in the state it has reached.\<close>

datatype outcome = Done state | Threw error state

datatype 'a awaited = Resolved 'a | Rejected error

definition andThen :: "outcome \<Rightarrow> (state \<Rightarrow> outcome) \<Rightarrow> outcome" where
  "andThen r k = (case r of Done s \<Rightarrow> k s | Threw e s \<Rightarrow> Threw e s)"

definition emit :: "event \<Rightarrow> state \<Rightarrow> state" where
  "emit ev s = s\<lparr>events := events s @ [ev]\<rparr>"

definition logger_info :: "message \<Rightarrow> state \<Rightarrow> state" where
  "logger_info m s = emit (Logger (loggerLevel s) Info m) s"

definition logger_warn :: "message \<Rightarrow> state \<Rightarrow> state" where
  "logger_warn m s = emit (Logger (loggerLevel s) Warn m) s"

definition onFs :: "(fsys \<Rightarrow> error + fsys) \<Rightarrow> state \<Rightarrow> outcome" where
  "onFs f s = (case f (fsys s) of Inl e \<Rightarrow> Threw e s | Inr fs' \<Rightarrow> Done (s\<lparr>fsys := fs'\<rparr>))"

definition writeFileSync :: "path \<Rightarrow> jsstring \<Rightarrow> state \<Rightarrow> outcome" where
  "writeFileSync p text = onFs (fs_writeFileSync p text)"

definition mkdirpSync :: "path \<Rightarrow> state \<Rightarrow> outcome" where
  "mkdirpSync p = onFs (fs_mkdirpSync p)"

text \<open>
  fs-extra's \<^verbatim>\<open>outputFileSync\<close>: write the file at once when its directory exists,
  make the directory first otherwise.
\<close>

definition outputFileSync :: "path \<Rightarrow> jsstring \<Rightarrow> state \<Rightarrow> outcome" where
  "outputFileSync file text s =
     (let dir = butlast file in
      if existsSync (fsys s) dir then writeFileSync file text s
      else andThen (mkdirpSync dir s) (writeFileSync file text))"

record execResult =
  status :: exitStatus
  stdout :: jsstring
  stderr :: jsstring

text \<open>
  The parameters of a run: the working directory, the templates of \<^verbatim>\<open>./setup-files\<close>
  (texts of a missing module), the script entries that the manifest update
  injects, \<^verbatim>\<open>JSON.parse\<close> (\<open>None\<close> for a \<^verbatim>\<open>SyntaxError\<close>), \<^verbatim>\<open>Number::toString\<close>,
  what a shell command does to the file system and how it exits, and whether the telemetry
  request is delivered.
\<close>

record env =
  baseDir :: path
  blogPost :: jsstring
  TinaProvider :: jsstring
  TinaProviderDynamic :: jsstring
  nextPostPage :: jsstring
  adminPage :: jsstring
  appBody :: "bool \<Rightarrow> jsstring"
  injectedScripts :: "(jsstring \<times> jsstring) list"
  parseJSON :: "jsstring \<Rightarrow> json option"
  numberToString :: "64 word \<Rightarrow> jsstring"
  shell :: "jsstring \<Rightarrow> fsys \<Rightarrow> execResult \<times> fsys"
  telemetryDelivers :: bool

section \<open>Missing parts of the repository\<close>

text \<open>
  Modelled from the spec: \<^verbatim>\<open>Telemetry.submitRecord\<close> of \<^verbatim>\<open>@tinacms/metrics\<close> is missing.
  The spec has it fire one best-effort usage record at pipeline start, suppressible by a
  configuration flag, whose submission failure is swallowed: the promise resolves whether
  or not the record is delivered.
\<close>

definition submitRecord :: "env \<Rightarrow> bool \<Rightarrow> string \<Rightarrow> state \<Rightarrow> unit awaited \<times> state" where
  "submitRecord env disabled name s =
     (Resolved (), if disabled then s else emit (TelemetryRecord name (telemetryDelivers env)) s)"

text \<open>
  Modelled from the spec: \<^verbatim>\<open>AppJsContent\<close> of \<^verbatim>\<open>./setup-files\<close> is missing. The spec
  has the regenerated entry point consist of the captured import lines, verbatim and in
  order, and of the generated body, which depends on the layout (src-rooted or
  root-rooted); without captured lines it is the generated body.
\<close>

definition AppJsContent :: "env \<Rightarrow> bool \<Rightarrow> jsstring option \<Rightarrow> jsstring" where
  "AppJsContent env usingSrc extraImports =
     (case extraImports of
        None \<Rightarrow> appBody env usingSrc
      | Some imports \<Rightarrow>
          if imports = [] then appBody env usingSrc
          else imports @ [newline] @ appBody env usingSrc)"

text \<open>
  Modelled from the spec: \<^verbatim>\<open>extendNextScripts\<close> of \<^verbatim>\<open>utils/script-helpers\<close> is missing.
  The spec has it merge a fixed set of named script entries into the existing scripts,
  overriding the entries of those names and preserving every other one. An overridden
  entry keeps its place and a new one goes to the end, as in an object literal
  \<^verbatim>\<open>{...scripts, name: command}\<close>.
\<close>

definition extendNextScripts :: "env \<Rightarrow> json \<Rightarrow> json" where
  "extendNextScripts env scripts =
     JObj (fold (\<lambda>kv. AList.update (fst kv) (JStr (snd kv))) (injectedScripts env)
             (ownEntries scripts))"

section \<open>\<^verbatim>\<open>cmds/init/index.ts\<close>\<close>

definition execShellCommand :: "env \<Rightarrow> jsstring \<Rightarrow> state \<Rightarrow> jsstring awaited \<times> state" where
  "execShellCommand env cmd s =
     (let (r, fs') = shell env cmd (fsys s);
          s1 = s\<lparr>fsys := fs'\<rparr>;
          s2 = (if status r \<noteq> Exited 0 then emit (ConsoleWarn (status r)) s1 else s1)
      in (Resolved (if stdout r \<noteq> [] then stdout r else stderr r), s2))"

definition initTina :: "env \<Rightarrow> bool \<Rightarrow> (state \<Rightarrow> outcome) \<Rightarrow> state \<Rightarrow> outcome" where
  "initTina env noTelemetry next s =
     (case submitRecord env noTelemetry ''tinacms:cli:init:invoke'' s of
        (Rejected e, s1) \<Rightarrow> Threw e s1
      | (Resolved _, s1) \<Rightarrow> next (logger_info SettingUpTina s1))"

definition installDeps :: "env \<Rightarrow> (state \<Rightarrow> outcome) \<Rightarrow> state \<Rightarrow> outcome" where
  "installDeps env next s =
     (let deps = [js ''tinacms'', js ''styled-components'', js ''@tinacms/cli''];
          s1 = emit (ProgressTick []) s;
          installCMD = js ''yarn add '' @ joinWith (js '' '') deps
      in case execShellCommand env installCMD s1 of
           (Rejected e, s2) \<Rightarrow> Threw e s2
         | (Resolved _, s2) \<Rightarrow>
             (let s3 = emit (ProgressTick ''done'') s2;
                  s4 = s3\<lparr>loggerLevel := ''fatal''\<rparr>
              in next s4))"

definition blogContentPath :: "env \<Rightarrow> path" where
  "blogContentPath env = pjoin (baseDir env) [''content'', ''posts'']"

definition blogPostPath :: "env \<Rightarrow> path" where
  "blogPostPath env = pjoin (blogContentPath env) [''HelloWorld.md'']"

definition TinaFolder :: "env \<Rightarrow> path" where
  "TinaFolder env = pjoin (baseDir env) [''.tina'']"

definition componentFolder :: "env \<Rightarrow> path" where
  "componentFolder env = pjoin (TinaFolder env) [''components'']"

definition TinaProviderPath :: "env \<Rightarrow> path" where
  "TinaProviderPath env = pjoin (componentFolder env) [''TinaProvider.js'']"

definition TinaDynamicProvider :: "env \<Rightarrow> path" where
  "TinaDynamicProvider env = pjoin (componentFolder env) [''TinaDynamicProvider.js'']"

text \<open>The paths that \<^verbatim>\<open>tinaSetup\<close> computes from \<^verbatim>\<open>useingSrc\<close>.\<close>

definition pagesPath :: "env \<Rightarrow> bool \<Rightarrow> path" where
  "pagesPath env useingSrc = pjoin (baseDir env) [if useingSrc then ''src'' else [], ''pages'']"

definition appPath :: "env \<Rightarrow> bool \<Rightarrow> path" where
  "appPath env useingSrc = pjoin (pagesPath env useingSrc) [''_app.js'']"

definition appPathTS :: "env \<Rightarrow> bool \<Rightarrow> path" where
  "appPathTS env useingSrc = pjoin (pagesPath env useingSrc) [''_app.tsx'']"

definition tinaBlogPagePath :: "env \<Rightarrow> bool \<Rightarrow> path" where
  "tinaBlogPagePath env useingSrc = pjoin (pagesPath env useingSrc) [''demo'', ''blog'']"

definition tinaBlogPagePathFile :: "env \<Rightarrow> bool \<Rightarrow> path" where
  "tinaBlogPagePathFile env useingSrc = pjoin (tinaBlogPagePath env useingSrc) [''[filename].js'']"

definition packagePath :: "env \<Rightarrow> path" where
  "packagePath env = pjoin (baseDir env) [''package.json'']"

definition adminPath :: "env \<Rightarrow> bool \<Rightarrow> path" where
  "adminPath env useingSrc = pjoin (pagesPath env useingSrc) [''admin.js'']"

text \<open>
  \<^verbatim>\<open>tinaSetup\<close>, block by block. Step 1: the sample post, unless it is there.
\<close>

definition ensureSampleContent :: "env \<Rightarrow> state \<Rightarrow> outcome" where
  "ensureSampleContent env s =
     (if \<not> pathExistsSync (fsys s) (blogPostPath env) then
        andThen (mkdirpSync (blogContentPath env) (logger_info AddingContentFolder s))
          (writeFileSync (blogPostPath env) (blogPost env))
      else Done s)"

text \<open>Step 2: the two provider files, when neither is there.\<close>

definition ensureProviders :: "env \<Rightarrow> state \<Rightarrow> outcome" where
  "ensureProviders env s =
     (if \<not> existsSync (fsys s) (TinaProviderPath env)
         \<and> \<not> existsSync (fsys s) (TinaDynamicProvider env) then
        andThen (mkdirpSync (componentFolder env) s) (\<lambda>s1.
        andThen (writeFileSync (TinaProviderPath env) (TinaProvider env) s1)
          (writeFileSync (TinaDynamicProvider env) (TinaProviderDynamic env)))
      else Done s)"

text \<open>
  Step 3: the entry point. \<open>answer\<close> is \<^verbatim>\<open>override.res\<close>, what the operator answers to
  the prompt: \<open>Some True\<close>, \<open>Some False\<close>, or \<open>None\<close> (\<^verbatim>\<open>undefined\<close>) when the prompt is
  cancelled.
\<close>

definition ensureEntryPoint :: "env \<Rightarrow> bool \<Rightarrow> bool option \<Rightarrow> state \<Rightarrow> outcome" where
  "ensureEntryPoint env useingSrc answer s =
     (let appExtension = (if existsSync (fsys s) (appPath env useingSrc) then ''.js'' else ''.tsx'')
      in if \<not> pathExistsSync (fsys s) (appPath env useingSrc)
            \<and> \<not> pathExistsSync (fsys s) (appPathTS env useingSrc) then
           writeFileSync (appPath env useingSrc) (AppJsContent env useingSrc None)
             (logger_info (AddingApp ''.js'') s)
         else
           (let s1 = emit (Prompt appExtension) s in
            if answer = Some True then
              (let s2 = logger_info (AddingApp appExtension) s1;
                   appPathWithExtension = pjoin (pagesPath env useingSrc) [''_app'' @ appExtension]
               in case (if pathExistsSync (fsys s2) (appPath env useingSrc)
                        then readFileSync (fsys s2) (appPath env useingSrc)
                        else readFileSync (fsys s2) (appPathTS env useingSrc)) of
                    Inl e \<Rightarrow> Threw e s2
                  | Inr fileContent \<Rightarrow>
                      (let primaryMatches = styleImports fileContent
                       in writeFileSync appPathWithExtension
                            (AppJsContent env useingSrc (Some (joinWith [newline] primaryMatches)))
                            s2))
            else Done (logger_info (HeadsUp (AppJsContent env useingSrc None)) s1)))"

text \<open>The demo page, unless it is there.\<close>

definition ensureDemoPage :: "env \<Rightarrow> bool \<Rightarrow> state \<Rightarrow> outcome" where
  "ensureDemoPage env useingSrc s =
     (if \<not> pathExistsSync (fsys s) (tinaBlogPagePathFile env useingSrc) then
        andThen (mkdirpSync (tinaBlogPagePath env useingSrc) s)
          (writeFileSync (tinaBlogPagePathFile env useingSrc) (nextPostPage env))
      else Done s)"

text \<open>Step 4: \<^verbatim>\<open>package.json\<close>.\<close>

definition newPackOf :: "env \<Rightarrow> json \<Rightarrow> json option \<Rightarrow> json" where
  "newPackOf env pack scripts =
     (let oldScripts = (case scripts of
                          None \<Rightarrow> JObj []
                        | Some v \<Rightarrow> if truthy v then v else JObj [])
      in JObj (AList.update (js ''scripts'') (extendNextScripts env oldScripts)
                 (ownEntries pack)))"

definition updateManifest :: "env \<Rightarrow> state \<Rightarrow> outcome" where
  "updateManifest env s =
     (case readFileSync (fsys s) (packagePath env) of
        Inl e \<Rightarrow> Threw e s
      | Inr text \<Rightarrow>
          (case parseJSON env text of
             None \<Rightarrow> Threw SyntaxError s
           | Some pack \<Rightarrow>
               (case getScripts pack of
                  Inl e \<Rightarrow> Threw e s
                | Inr scripts \<Rightarrow>
                    (let newPack = JSON_stringify (numberToString env) 2
                                     (newPackOf env pack scripts)
                     in writeFileSync (packagePath env) newPack s))))"

text \<open>The admin page, unless the path \<^verbatim>\<open>pages/admin\<close> is taken.\<close>

definition ensureAdminPage :: "env \<Rightarrow> bool \<Rightarrow> (state \<Rightarrow> outcome) \<Rightarrow> state \<Rightarrow> outcome" where
  "ensureAdminPage env useingSrc next s =
     (if pathExistsSync (fsys s) (pjoin (pagesPath env useingSrc) [''admin'']) then
        next (logger_warn UnableToAddAdmin s)
      else andThen (outputFileSync (adminPath env useingSrc) (adminPage env) s) next)"

definition tinaSetup :: "env \<Rightarrow> bool option \<Rightarrow> (state \<Rightarrow> outcome) \<Rightarrow> state \<Rightarrow> outcome" where
  "tinaSetup env answer next s =
     (let useingSrc = pathExistsSync (fsys s) (pjoin (baseDir env) [''src'']) in
      andThen (ensureSampleContent env s) (\<lambda>s1.
      andThen (ensureProviders env s1) (\<lambda>s2.
      andThen (ensureEntryPoint env useingSrc answer (s2\<lparr>loggerLevel := ''info''\<rparr>)) (\<lambda>s3.
      andThen (ensureDemoPage env useingSrc s3) (\<lambda>s4.
      andThen (updateManifest env (logger_info AddingContentFolderDone s4)) (\<lambda>s5.
      ensureAdminPage env useingSrc next s5))))))"

definition successMessage :: "(state \<Rightarrow> outcome) \<Rightarrow> state \<Rightarrow> outcome" where
  "successMessage next s = next (logger_info SetupDone s)"

section \<open>Notions used by the properties\<close>

text \<open>The state that a stage leaves behind, whether it returned or threw.\<close>

fun stateOf :: "outcome \<Rightarrow> state" where
  "stateOf (Done s) = s"
| "stateOf (Threw e s) = s"

text \<open>
  \<open>evolves W D fs fs'\<close>: from \<open>fs\<close> to \<open>fs'\<close> a path is unchanged, or is one of the
  paths \<open>W\<close> and now a file, or is one of the paths \<open>D\<close>, was absent and now is a
  directory.
\<close>

definition evolves :: "path set \<Rightarrow> path set \<Rightarrow> fsys \<Rightarrow> fsys \<Rightarrow> bool" where
  "evolves W D fs fs' \<longleftrightarrow>
     (\<forall>p. fs' p = fs p
          \<or> (p \<in> W \<and> (\<exists>text. fs' p = Some (File text)))
          \<or> (p \<in> D \<and> fs p = None \<and> fs' p = Some Dir))"

text \<open>
  The files that a run of \<^verbatim>\<open>tinaSetup\<close> from the file system \<open>fs\<close> may write, and the
  directories that it may make.
\<close>

definition writeSet :: "env \<Rightarrow> bool option \<Rightarrow> fsys \<Rightarrow> path list" where
  "writeSet env answer fs =
     (let u = pathExistsSync fs (pjoin (baseDir env) [''src'']) in
      (if fs (blogPostPath env) = None then [blogPostPath env] else [])
      @ (if fs (TinaProviderPath env) = None \<and> fs (TinaDynamicProvider env) = None
         then [TinaProviderPath env, TinaDynamicProvider env] else [])
      @ (if fs (appPath env u) = None \<and> fs (appPathTS env u) = None then [appPath env u]
         else if answer = Some True
         then [if fs (appPath env u) = None then appPathTS env u else appPath env u]
         else [])
      @ (if fs (tinaBlogPagePathFile env u) = None then [tinaBlogPagePathFile env u] else [])
      @ [packagePath env]
      @ (if fs (pjoin (pagesPath env u) [''admin'']) = None then [adminPath env u] else []))"

definition dirSet :: "env \<Rightarrow> fsys \<Rightarrow> path list" where
  "dirSet env fs =
     (let u = pathExistsSync fs (pjoin (baseDir env) [''src'']) in
      ancestors (blogContentPath env) @ ancestors (componentFolder env)
      @ ancestors (tinaBlogPagePath env u))"

text \<open>
  The manifest that a run from \<open>fs\<close> writes, when it gets that far, and what it means for
  \<^verbatim>\<open>JSON.parse\<close> to read the serialisation of a value back as that value.
\<close>

definition newManifest :: "env \<Rightarrow> fsys \<Rightarrow> json option" where
  "newManifest env fs =
     (case readFileSync fs (packagePath env) of
        Inl e \<Rightarrow> None
      | Inr text \<Rightarrow>
          (case parseJSON env text of
             None \<Rightarrow> None
           | Some pack \<Rightarrow>
               (case getScripts pack of
                  Inl e \<Rightarrow> None
                | Inr scripts \<Rightarrow> Some (newPackOf env pack scripts))))"

definition readsBack :: "env \<Rightarrow> json \<Rightarrow> bool" where
  "readsBack env v \<longleftrightarrow> parseJSON env (JSON_stringify (numberToString env) 2 v) = Some v"

definition returns :: "outcome \<Rightarrow> bool" where
  "returns r = (case r of Done s \<Rightarrow> True | Threw e s \<Rightarrow> False)"

section \<open>An example project\<close>

text \<open>
  A project in \<^verbatim>\<open>/app\<close> with a \<^verbatim>\<open>pages\<close> directory and the manifest
  \<^verbatim>\<open>{"scripts": {"start": "x"}}\<close>.
\<close>

definition exampleManifest :: json where
  "exampleManifest = JObj [(js ''scripts'', JObj [(js ''start'', JStr (js ''x''))])]"

definition exampleNewManifest :: json where
  "exampleNewManifest =
     JObj [(js ''scripts'',
            JObj [(js ''start'', JStr (js ''x'')),
                  (js ''dev'', JStr (js ''tina dev'')),
                  (js ''build'', JStr (js ''tina build''))])]"

definition exampleManifestText :: jsstring where
  \<open>exampleManifestText = js ''{"scripts": {"start": "x"}}''\<close>

definition exampleNewManifestText :: jsstring where
  \<open>exampleNewManifestText =
     joinWith [newline]
       [js ''{'',
        js ''  "scripts": {'',
        js ''    "start": "x",'',
        js ''    "dev": "tina dev",'',
        js ''    "build": "tina build"'',
        js ''  }'',
        js ''}'']\<close>

definition exampleParse :: "jsstring \<Rightarrow> json option" where
  "exampleParse text =
     (if text = exampleManifestText then Some exampleManifest
      else if text = exampleNewManifestText then Some exampleNewManifest
      else None)"

definition exampleEnv :: env where
  "exampleEnv =
     \<lparr> baseDir = [''app''],
       blogPost = js ''# Hello'',
       TinaProvider = js ''provider'',
       TinaProviderDynamic = js ''dynamic provider'',
       nextPostPage = js ''post page'',
       adminPage = js ''admin page'',
       appBody = (\<lambda>usingSrc. if usingSrc then js ''src app'' else js ''app''),
       injectedScripts = [(js ''dev'', js ''tina dev''), (js ''build'', js ''tina build'')],
       parseJSON = exampleParse,
       numberToString = (\<lambda>w. js ''0''),
       shell = (\<lambda>cmd fs. (\<lparr>status = Exited 1, stdout = [], stderr = js ''no yarn''\<rparr>, fs)),
       telemetryDelivers = False \<rparr>"

definition exampleFs :: fsys where
  "exampleFs =
     [[] \<mapsto> Dir,
      [''app''] \<mapsto> Dir,
      [''app'', ''pages''] \<mapsto> Dir,
      [''app'', ''package.json''] \<mapsto> File exampleManifestText]"

definition exampleState :: "fsys \<Rightarrow> state" where
  "exampleState fs = \<lparr>fsys = fs, loggerLevel = ''fatal'', events = []\<rparr>"

text \<open>The same project with a \<^verbatim>\<open>src\<close> folder, and with providers, entry points and an
  \<^verbatim>\<open>admin\<close> directory in place.\<close>

definition exampleSrcFs :: fsys where
  "exampleSrcFs =
     [[] \<mapsto> Dir,
      [''app''] \<mapsto> Dir,
      [''app'', ''src''] \<mapsto> Dir,
      [''app'', ''src'', ''pages''] \<mapsto> Dir,
      [''app'', ''package.json''] \<mapsto> File exampleManifestText]"

definition exampleAppText :: jsstring where
  "exampleAppText =
     js ''import React from '' @ [0x27] @ js ''react'' @ [0x27, 0x0D, 0x0A]
     @ js ''import '' @ [0x27] @ js ''../styles/a.css'' @ [0x27, 0x0D, 0x0A]
     @ js ''// .css'' @ [0x27] @ js '' import'' @ [0x0A]
     @ js ''import x from '' @ [0x22] @ js ''./b.css'' @ [0x22] @ js '';'' @ [0x0A]
     @ js ''export default App''"

definition exampleBusyFs :: fsys where
  "exampleBusyFs =
     [[] \<mapsto> Dir,
      [''app''] \<mapsto> Dir,
      [''app'', ''.tina''] \<mapsto> Dir,
      [''app'', ''.tina'', ''components''] \<mapsto> Dir,
      [''app'', ''.tina'', ''components'', ''TinaProvider.js''] \<mapsto> File (js ''mine''),
      [''app'', ''pages''] \<mapsto> Dir,
      [''app'', ''pages'', ''admin''] \<mapsto> Dir,
      [''app'', ''pages'', ''admin.js''] \<mapsto> File (js ''old admin''),
      [''app'', ''pages'', ''_app.js''] \<mapsto> File exampleAppText,
      [''app'', ''pages'', ''_app.tsx''] \<mapsto> File (js ''typescript app''),
      [''app'', ''package.json''] \<mapsto> File exampleManifestText]"

text \<open>The first project with a regular file \<^verbatim>\<open>pages/admin\<close> and an old \<^verbatim>\<open>pages/admin.js\<close>.\<close>

definition exampleAdminFileFs :: fsys where
  "exampleAdminFileFs =
     exampleFs
       ([''app'', ''pages'', ''admin''] \<mapsto> File (js ''notes''),
        [''app'', ''pages'', ''admin.js''] \<mapsto> File (js ''old admin''))"

section \<open>Sequencing and the file-system operations\<close>

lemma andThen_Done [simp]: "andThen (Done s) k = k s"
  by (simp add: andThen_def)

lemma andThen_Threw [simp]: "andThen (Threw e s) k = Threw e s"
  by (simp add: andThen_def)

lemma andThen_eq_Done: "andThen r k = Done s' \<longleftrightarrow> (\<exists>s1. r = Done s1 \<and> k s1 = Done s')"
  by (cases r) simp_all

lemma andThen_assoc: "andThen (andThen r f) g = andThen r (\<lambda>s. andThen (f s) g)"
  by (cases r) simp_all

lemma andThen_return [simp]: "andThen r Done = r"
  by (cases r) simp_all

lemma fsys_emit [simp]: "fsys (emit ev s) = fsys s"
  by (simp add: emit_def)

lemma fsys_logger_info [simp]: "fsys (logger_info m s) = fsys s"
  by (simp add: logger_info_def)

lemma fsys_logger_warn [simp]: "fsys (logger_warn m s) = fsys s"
  by (simp add: logger_warn_def)

lemma loggerLevel_emit [simp]: "loggerLevel (emit ev s) = loggerLevel s"
  by (simp add: emit_def)

lemma loggerLevel_logger_info [simp]: "loggerLevel (logger_info m s) = loggerLevel s"
  by (simp add: logger_info_def)

lemma events_emit [simp]: "events (emit ev s) = events s @ [ev]"
  by (simp add: emit_def)

lemma in_ancestors: "q \<in> set (ancestors p) \<longleftrightarrow> q \<noteq> [] \<and> prefix q p"
proof
  assume "q \<in> set (ancestors p)"
  then obtain n where "1 \<le> n" "n \<le> length p" "q = take n p"
    by (auto simp: ancestors_def)
  then show "q \<noteq> [] \<and> prefix q p"
    by (cases p) (auto simp: take_is_prefix)
next
  assume h: "q \<noteq> [] \<and> prefix q p"
  then obtain r where "p = q @ r" by (auto simp: prefix_def)
  with h have "q = take (length q) p" and "length q \<in> set [1..<Suc (length p)]"
    by (auto simp: Suc_le_eq)
  then show "q \<in> set (ancestors p)"
    unfolding ancestors_def set_map by (rule image_eqI)
qed

lemma fs_writeFileSync_Inr:
  "fs_writeFileSync p t fs = Inr fs' \<longleftrightarrow>
     fs (butlast p) = Some Dir \<and> fs p \<noteq> Some Dir \<and> fs' = fs(p \<mapsto> File t)"
  by (auto simp: fs_writeFileSync_def split: option.splits node.splits)

lemma fs_mkdirpSync_Inr:
  assumes "fs_mkdirpSync d fs = Inr fs'"
  shows "fs' q = (if q \<in> set (ancestors d) \<and> fs q = None then Some Dir else fs q)"
    and "q \<in> set (ancestors d) \<Longrightarrow> fs' q = Some Dir"
proof -
  from assms
  have none: "filter (\<lambda>q. case fs q of Some (File _) \<Rightarrow> True | _ \<Rightarrow> False) (ancestors d) = []"
    and eq: "fs' = (\<lambda>q. if q \<in> set (ancestors d) \<and> fs q = None then Some Dir else fs q)"
    by (auto simp: fs_mkdirpSync_def split: list.splits)
  show "fs' q = (if q \<in> set (ancestors d) \<and> fs q = None then Some Dir else fs q)"
    by (simp add: eq)
  assume q: "q \<in> set (ancestors d)"
  with none have "\<not> (case fs q of Some (File _) \<Rightarrow> True | _ \<Rightarrow> False)"
    by (auto simp: filter_empty_conv)
  with q show "fs' q = Some Dir"
    by (auto simp: eq split: option.splits node.splits)
qed

lemma onFs_cases:
  obtains (ok) fs' where "f (fsys s) = Inr fs'" and "onFs f s = Done (s\<lparr>fsys := fs'\<rparr>)"
  | (err) e where "f (fsys s) = Inl e" and "onFs f s = Threw e s"
  by (cases "f (fsys s)") (auto simp: onFs_def)

section \<open>What a stage may change\<close>

lemma evolves_refl [simp]: "evolves W D fs fs"
  by (simp add: evolves_def)

lemma evolves_trans:
  assumes "evolves W D fs fs'" and "evolves W' D' fs' fs''"
  shows "evolves (W \<union> W') (D \<union> D') fs fs''"
  unfolding evolves_def
proof
  fix p
  from assms(1)
  have a: "fs' p = fs p \<or> (p \<in> W \<and> (\<exists>t. fs' p = Some (File t)))
             \<or> (p \<in> D \<and> fs p = None \<and> fs' p = Some Dir)"
    by (simp add: evolves_def)
  from assms(2)
  have b: "fs'' p = fs' p \<or> (p \<in> W' \<and> (\<exists>t. fs'' p = Some (File t)))
             \<or> (p \<in> D' \<and> fs' p = None \<and> fs'' p = Some Dir)"
    by (simp add: evolves_def)
  from a b
  show "fs'' p = fs p \<or> (p \<in> W \<union> W' \<and> (\<exists>t. fs'' p = Some (File t)))
          \<or> (p \<in> D \<union> D' \<and> fs p = None \<and> fs'' p = Some Dir)"
    by auto
qed

lemma evolves_mono:
  "evolves W D fs fs' \<Longrightarrow> W \<subseteq> W' \<Longrightarrow> D \<subseteq> D' \<Longrightarrow> evolves W' D' fs fs'"
  unfolding evolves_def by blast

lemma evolves_same: "evolves W D fs fs' \<Longrightarrow> p \<notin> W \<Longrightarrow> p \<notin> D \<Longrightarrow> fs' p = fs p"
  unfolding evolves_def by blast

lemma evolves_kept: "evolves W D fs fs' \<Longrightarrow> p \<notin> W \<Longrightarrow> fs p \<noteq> None \<Longrightarrow> fs' p = fs p"
  unfolding evolves_def by (auto dest: spec [of _ p])

lemma evolves_exists: "evolves W D fs fs' \<Longrightarrow> fs p \<noteq> None \<Longrightarrow> fs' p \<noteq> None"
  unfolding evolves_def by (auto dest: spec [of _ p])

lemma evolves_write: "evolves {p} D (fsys s) (fsys (stateOf (writeFileSync p t s)))"
  by (cases rule: onFs_cases [of "fs_writeFileSync p t" s])
     (auto simp: writeFileSync_def fs_writeFileSync_Inr evolves_def)

lemma evolves_mkdirp: "evolves W (set (ancestors d)) (fsys s) (fsys (stateOf (mkdirpSync d s)))"
proof (cases rule: onFs_cases [of "fs_mkdirpSync d" s])
  case (ok fs')
  then show ?thesis
    using fs_mkdirpSync_Inr(1) [OF ok(1)] by (auto simp: mkdirpSync_def evolves_def)
next
  case (err e)
  then show ?thesis by (simp add: mkdirpSync_def)
qed

lemma evolves_andThen:
  assumes "evolves W D fs0 (fsys (stateOf r))"
    and "\<And>s1. r = Done s1 \<Longrightarrow> evolves W' D' (fsys s1) (fsys (stateOf (k s1)))"
  shows "evolves (W \<union> W') (D \<union> D') fs0 (fsys (stateOf (andThen r k)))"
proof (cases r)
  case (Done s1)
  with assms show ?thesis by (auto intro: evolves_trans)
next
  case (Threw e s1)
  with assms(1) show ?thesis by (auto intro: evolves_mono)
qed

section \<open>The steps of \<^verbatim>\<open>tinaSetup\<close>, one by one\<close>

lemmas path_defs =
  blogContentPath_def blogPostPath_def TinaFolder_def componentFolder_def TinaProviderPath_def
  TinaDynamicProvider_def pagesPath_def appPath_def appPathTS_def tinaBlogPagePath_def
  tinaBlogPagePathFile_def packagePath_def adminPath_def pjoin_def

lemma evolves_output:
  "evolves {p} (set (ancestors (butlast p))) (fsys s) (fsys (stateOf (outputFileSync p t s)))"
proof (cases "existsSync (fsys s) (butlast p)")
  case True
  with evolves_write [of p "set (ancestors (butlast p))" s t] show ?thesis
    by (simp add: outputFileSync_def)
next
  case False
  have "evolves ({} \<union> {p}) (set (ancestors (butlast p)) \<union> {}) (fsys s)
          (fsys (stateOf (andThen (mkdirpSync (butlast p) s) (writeFileSync p t))))"
    by (intro evolves_andThen evolves_mkdirp evolves_write)
  with False show ?thesis
    by (simp add: outputFileSync_def)
qed

lemma ensureSampleContent_evolves:
  "evolves (if fsys s (blogPostPath env) = None then {blogPostPath env} else {})
     (set (ancestors (blogContentPath env)))
     (fsys s) (fsys (stateOf (ensureSampleContent env s)))"
proof (cases "fsys s (blogPostPath env) = None")
  case True
  have "evolves ({} \<union> {blogPostPath env}) (set (ancestors (blogContentPath env)) \<union> {})
          (fsys (logger_info AddingContentFolder s))
          (fsys (stateOf (andThen (mkdirpSync (blogContentPath env)
                                     (logger_info AddingContentFolder s))
                            (writeFileSync (blogPostPath env) (blogPost env)))))"
    by (intro evolves_andThen evolves_mkdirp evolves_write)
  with True show ?thesis
    by (simp add: ensureSampleContent_def pathExistsSync_def)
next
  case False
  then show ?thesis
    by (simp add: ensureSampleContent_def pathExistsSync_def)
qed

lemma ensureProviders_evolves:
  "evolves (if fsys s (TinaProviderPath env) = None \<and> fsys s (TinaDynamicProvider env) = None
            then {TinaProviderPath env, TinaDynamicProvider env} else {})
     (set (ancestors (componentFolder env)))
     (fsys s) (fsys (stateOf (ensureProviders env s)))"
proof (cases "fsys s (TinaProviderPath env) = None \<and> fsys s (TinaDynamicProvider env) = None")
  case True
  have "evolves ({} \<union> ({TinaProviderPath env} \<union> {TinaDynamicProvider env}))
          (set (ancestors (componentFolder env)) \<union> ({} \<union> {}))
          (fsys s)
          (fsys (stateOf (andThen (mkdirpSync (componentFolder env) s) (\<lambda>s1.
                   andThen (writeFileSync (TinaProviderPath env) (TinaProvider env) s1)
                     (writeFileSync (TinaDynamicProvider env) (TinaProviderDynamic env))))))"
    by (intro evolves_andThen evolves_mkdirp evolves_write)
  with True show ?thesis
    by (simp add: ensureProviders_def existsSync_def insert_commute)
next
  case False
  then show ?thesis
    by (auto simp: ensureProviders_def existsSync_def)
qed

lemma ensureEntryPoint_evolves:
  "evolves (if fsys s (appPath env u) = None \<and> fsys s (appPathTS env u) = None
            then {appPath env u}
            else if answer = Some True
            then {if fsys s (appPath env u) = None then appPathTS env u else appPath env u}
            else {})
     {} (fsys s) (fsys (stateOf (ensureEntryPoint env u answer s)))"
proof -
  have js: "pjoin (pagesPath env u) [''_app.js''] = appPath env u"
    and tsx: "pjoin (pagesPath env u) [''_app.tsx''] = appPathTS env u"
    by (simp_all add: appPath_def appPathTS_def)
  have w: "evolves {p} {} (fsys s) (fsys (stateOf (writeFileSync p t s')))" if "fsys s' = fsys s"
    for p t s'
    using evolves_write [of p "{}" s' t] that by simp
  show ?thesis
    unfolding ensureEntryPoint_def Let_def
    by (auto simp: pathExistsSync_def existsSync_def js tsx logger_info_def intro!: w
             split: sum.splits)
qed

lemma ensureDemoPage_evolves:
  "evolves (if fsys s (tinaBlogPagePathFile env u) = None then {tinaBlogPagePathFile env u} else {})
     (set (ancestors (tinaBlogPagePath env u)))
     (fsys s) (fsys (stateOf (ensureDemoPage env u s)))"
proof (cases "fsys s (tinaBlogPagePathFile env u) = None")
  case True
  have "evolves ({} \<union> {tinaBlogPagePathFile env u}) (set (ancestors (tinaBlogPagePath env u)) \<union> {})
          (fsys s)
          (fsys (stateOf (andThen (mkdirpSync (tinaBlogPagePath env u) s)
                            (writeFileSync (tinaBlogPagePathFile env u) (nextPostPage env)))))"
    by (intro evolves_andThen evolves_mkdirp evolves_write)
  with True show ?thesis
    by (simp add: ensureDemoPage_def pathExistsSync_def)
next
  case False
  then show ?thesis
    by (simp add: ensureDemoPage_def pathExistsSync_def)
qed

lemma updateManifest_evolves:
  "evolves {packagePath env} {} (fsys s) (fsys (stateOf (updateManifest env s)))"
  unfolding updateManifest_def Let_def
  by (auto split: sum.splits option.splits intro: evolves_write)

lemma ensureAdminPage_evolves:
  "evolves (if fsys s (pjoin (pagesPath env u) [''admin'']) = None then {adminPath env u} else {})
     (set (ancestors (pagesPath env u)))
     (fsys s) (fsys (stateOf (ensureAdminPage env u Done s)))"
proof -
  have "butlast (adminPath env u) = pagesPath env u"
    by (simp add: adminPath_def pjoin_def butlast_append)
  then show ?thesis
    using evolves_output [of "adminPath env u" s "adminPage env"]
    by (simp add: ensureAdminPage_def pathExistsSync_def)
qed

section \<open>What a run of \<^verbatim>\<open>tinaSetup\<close> may change\<close>

lemma tinaSetup_frame:
  "evolves (set (writeSet env answer (fsys s))) (set (dirSet env (fsys s)))
     (fsys s) (fsys (stateOf (tinaSetup env answer Done s)))"
proof -
  define fs0 where "fs0 = fsys s"
  define u where "u = pathExistsSync fs0 (pjoin (baseDir env) [''src''])"
  define r1 where "r1 = ensureSampleContent env s"
  define r2 where "r2 = andThen r1 (ensureProviders env)"
  define r3 where
    "r3 = andThen r2 (\<lambda>s2. ensureEntryPoint env u answer (s2\<lparr>loggerLevel := ''info''\<rparr>))"
  define r4 where "r4 = andThen r3 (ensureDemoPage env u)"
  define r5 where
    "r5 = andThen r4 (\<lambda>s4. updateManifest env (logger_info AddingContentFolderDone s4))"
  define r6 where "r6 = andThen r5 (ensureAdminPage env u Done)"
  define A1 where "A1 = (if fs0 (blogPostPath env) = None then {blogPostPath env} else {})"
  define A2 where
    "A2 = (if fs0 (TinaProviderPath env) = None \<and> fs0 (TinaDynamicProvider env) = None
           then {TinaProviderPath env, TinaDynamicProvider env} else {})"
  define A3 where
    "A3 = (if fs0 (appPath env u) = None \<and> fs0 (appPathTS env u) = None then {appPath env u}
           else if answer = Some True
           then {if fs0 (appPath env u) = None then appPathTS env u else appPath env u}
           else {})"
  define A4 where
    "A4 = (if fs0 (tinaBlogPagePathFile env u) = None then {tinaBlogPagePathFile env u} else {})"
  define A5 where "A5 = {packagePath env}"
  define A6 where
    "A6 = (if fs0 (pjoin (pagesPath env u) [''admin'']) = None then {adminPath env u} else {})"
  define B1 where "B1 = set (ancestors (blogContentPath env))"
  define B2 where "B2 = set (ancestors (componentFolder env))"
  define B4 where "B4 = set (ancestors (tinaBlogPagePath env u))"
  define B6 where "B6 = set (ancestors (pagesPath env u))"
  note sets = A1_def A2_def A3_def A4_def A5_def A6_def B1_def B2_def B4_def B6_def
  have sub: "A1 \<subseteq> {blogPostPath env}"
    "A2 \<subseteq> {TinaProviderPath env, TinaDynamicProvider env}"
    "A3 \<subseteq> {appPath env u, appPathTS env u}"
    "A4 \<subseteq> {tinaBlogPagePathFile env u}"
    by (simp_all add: A1_def A2_def A3_def A4_def)
  note dirs = B1_def B2_def B4_def path_defs in_ancestors
  have run: "tinaSetup env answer Done s = r6"
    by (simp add: tinaSetup_def Let_def r6_def r5_def r4_def r3_def r2_def r1_def u_def fs0_def
                  andThen_assoc)
  have i1: "evolves A1 B1 fs0 (fsys (stateOf r1))"
    unfolding r1_def fs0_def A1_def B1_def by (rule ensureSampleContent_evolves)
  have i2: "evolves (A1 \<union> A2) (B1 \<union> B2) fs0 (fsys (stateOf r2))"
    unfolding r2_def
  proof (rule evolves_andThen [OF i1])
    fix s1 assume "r1 = Done s1"
    with i1 have "evolves A1 B1 fs0 (fsys s1)" by simp
    then have c: "evolves {blogPostPath env} B1 fs0 (fsys s1)"
      by (rule evolves_mono) (use sub in auto)
    have "fsys s1 (TinaProviderPath env) = fs0 (TinaProviderPath env)"
      by (rule evolves_same [OF c]) (simp_all add: dirs)
    moreover have "fsys s1 (TinaDynamicProvider env) = fs0 (TinaDynamicProvider env)"
      by (rule evolves_same [OF c]) (simp_all add: dirs)
    ultimately show "evolves A2 B2 (fsys s1) (fsys (stateOf (ensureProviders env s1)))"
      using ensureProviders_evolves [of s1 env] by (simp add: A2_def B2_def)
  qed
  have i3: "evolves (A1 \<union> A2 \<union> A3) (B1 \<union> B2 \<union> {}) fs0 (fsys (stateOf r3))"
    unfolding r3_def
  proof (rule evolves_andThen [OF i2])
    fix s2 assume "r2 = Done s2"
    with i2 have "evolves (A1 \<union> A2) (B1 \<union> B2) fs0 (fsys s2)" by simp
    then have c: "evolves {blogPostPath env, TinaProviderPath env, TinaDynamicProvider env}
                    (B1 \<union> B2) fs0 (fsys s2)"
      by (rule evolves_mono) (use sub in auto)
    have a1: "fsys s2 (appPath env u) = fs0 (appPath env u)"
      by (rule evolves_same [OF c]) (simp_all add: dirs)
    have a2: "fsys s2 (appPathTS env u) = fs0 (appPathTS env u)"
      by (rule evolves_same [OF c]) (simp_all add: dirs)
    have eq: "fsys (s2\<lparr>loggerLevel := ''info''\<rparr>) = fsys s2"
      by simp
    show "evolves A3 {} (fsys s2)
            (fsys (stateOf (ensureEntryPoint env u answer (s2\<lparr>loggerLevel := ''info''\<rparr>))))"
      using ensureEntryPoint_evolves [of "s2\<lparr>loggerLevel := ''info''\<rparr>" env u answer]
      unfolding A3_def eq a1 a2 .
  qed
  have i4: "evolves (A1 \<union> A2 \<union> A3 \<union> A4) (B1 \<union> B2 \<union> {} \<union> B4) fs0 (fsys (stateOf r4))"
    unfolding r4_def
  proof (rule evolves_andThen [OF i3])
    fix s3 assume "r3 = Done s3"
    with i3 have "evolves (A1 \<union> A2 \<union> A3) (B1 \<union> B2 \<union> {}) fs0 (fsys s3)" by simp
    then have c: "evolves {blogPostPath env, TinaProviderPath env, TinaDynamicProvider env,
                           appPath env u, appPathTS env u} (B1 \<union> B2) fs0 (fsys s3)"
      by (rule evolves_mono) (use sub in auto)
    have "fsys s3 (tinaBlogPagePathFile env u) = fs0 (tinaBlogPagePathFile env u)"
      by (rule evolves_same [OF c]) (simp_all add: dirs)
    then show "evolves A4 B4 (fsys s3) (fsys (stateOf (ensureDemoPage env u s3)))"
      using ensureDemoPage_evolves [of s3 env u] by (simp add: A4_def B4_def)
  qed
  have i5: "evolves (A1 \<union> A2 \<union> A3 \<union> A4 \<union> A5) (B1 \<union> B2 \<union> {} \<union> B4 \<union> {}) fs0
              (fsys (stateOf r5))"
    unfolding r5_def
  proof (rule evolves_andThen [OF i4])
    fix s4
    show "evolves A5 {} (fsys s4)
            (fsys (stateOf (updateManifest env (logger_info AddingContentFolderDone s4))))"
      using updateManifest_evolves [of env "logger_info AddingContentFolderDone s4"]
      by (simp add: A5_def)
  qed
  have i6: "evolves (A1 \<union> A2 \<union> A3 \<union> A4 \<union> A5 \<union> A6) (B1 \<union> B2 \<union> {} \<union> B4 \<union> {} \<union> B6) fs0
              (fsys (stateOf r6))"
    unfolding r6_def
  proof (rule evolves_andThen [OF i5])
    fix s5 assume "r5 = Done s5"
    with i5
    have "evolves (A1 \<union> A2 \<union> A3 \<union> A4 \<union> A5) (B1 \<union> B2 \<union> {} \<union> B4 \<union> {}) fs0 (fsys s5)"
      by simp
    then have c: "evolves {blogPostPath env, TinaProviderPath env, TinaDynamicProvider env,
                           appPath env u, appPathTS env u, tinaBlogPagePathFile env u,
                           packagePath env} (B1 \<union> B2 \<union> B4) fs0 (fsys s5)"
      by (rule evolves_mono) (use sub in \<open>auto simp: A5_def\<close>)
    have "fsys s5 (pjoin (pagesPath env u) [''admin'']) = fs0 (pjoin (pagesPath env u) [''admin''])"
      by (rule evolves_same [OF c]) (simp_all add: dirs)
    then show "evolves A6 B6 (fsys s5) (fsys (stateOf (ensureAdminPage env u Done s5)))"
      using ensureAdminPage_evolves [of s5 env u] by (simp add: A6_def B6_def)
  qed
  have W: "A1 \<union> A2 \<union> A3 \<union> A4 \<union> A5 \<union> A6 \<subseteq> set (writeSet env answer fs0)"
    unfolding writeSet_def Let_def u_def [symmetric] set_append sets
    by (simp add: if_distrib [of set] cong: if_cong)
  have "B6 \<subseteq> B4"
    unfolding B6_def B4_def tinaBlogPagePath_def pjoin_def by (auto simp: in_ancestors)
  then have D: "B1 \<union> B2 \<union> {} \<union> B4 \<union> {} \<union> B6 \<subseteq> set (dirSet env fs0)"
    by (auto simp: sets dirSet_def Let_def u_def)
  from evolves_mono [OF i6 W D] show ?thesis
    by (simp add: run fs0_def)
qed

lemma tinaSetup_Done:
  "tinaSetup env answer Done s = Done s' \<longleftrightarrow>
     (\<exists>s1 s2 s3 s4 s5.
        ensureSampleContent env s = Done s1
      \<and> ensureProviders env s1 = Done s2
      \<and> ensureEntryPoint env (pathExistsSync (fsys s) (pjoin (baseDir env) [''src''])) answer
          (s2\<lparr>loggerLevel := ''info''\<rparr>) = Done s3
      \<and> ensureDemoPage env (pathExistsSync (fsys s) (pjoin (baseDir env) [''src''])) s3 = Done s4
      \<and> updateManifest env (logger_info AddingContentFolderDone s4) = Done s5
      \<and> ensureAdminPage env (pathExistsSync (fsys s) (pjoin (baseDir env) [''src''])) Done s5
          = Done s')"
  by (simp add: tinaSetup_def Let_def andThen_eq_Done)

lemma ensureAdminPage_next:
  "ensureAdminPage env u next s = andThen (ensureAdminPage env u Done s) next"
  by (simp add: ensureAdminPage_def)

lemma tinaSetup_next:
  "tinaSetup env answer next s = andThen (tinaSetup env answer Done s) next"
  by (simp add: tinaSetup_def Let_def andThen_assoc ensureAdminPage_next [of _ _ "next"])

section \<open>What a step that returns has done\<close>

lemma writeFileSync_Done:
  "writeFileSync p t s = Done s' \<longleftrightarrow>
     fsys s (butlast p) = Some Dir \<and> fsys s p \<noteq> Some Dir
     \<and> s' = s\<lparr>fsys := (fsys s)(p \<mapsto> File t)\<rparr>"
  by (cases rule: onFs_cases [of "fs_writeFileSync p t" s])
     (auto simp: writeFileSync_def fs_writeFileSync_Inr fs_writeFileSync_def
           split: option.splits node.splits)

lemma mkdirpSync_Done:
  "mkdirpSync d s = Done s' \<longleftrightarrow> (\<exists>fs'. fs_mkdirpSync d (fsys s) = Inr fs' \<and> s' = s\<lparr>fsys := fs'\<rparr>)"
  by (cases rule: onFs_cases [of "fs_mkdirpSync d" s]) (auto simp: mkdirpSync_def)

lemma ensureSampleContent_Done:
  assumes "ensureSampleContent env s = Done s'"
  shows "fsys s' (blogPostPath env) \<noteq> None"
  using assms
  by (auto simp: ensureSampleContent_def pathExistsSync_def andThen_eq_Done writeFileSync_Done
           split: if_splits)

lemma ensureProviders_Done:
  assumes "ensureProviders env s = Done s'"
  shows "fsys s' (TinaProviderPath env) \<noteq> None \<or> fsys s' (TinaDynamicProvider env) \<noteq> None"
  using assms
  by (auto simp: ensureProviders_def existsSync_def andThen_eq_Done writeFileSync_Done
           split: if_splits)

lemma ensureEntryPoint_fresh:
  assumes "ensureEntryPoint env u answer s = Done s'"
    and "fsys s (appPath env u) = None" and "fsys s (appPathTS env u) = None"
  shows "fsys s' = (fsys s)(appPath env u \<mapsto> File (AppJsContent env u None))"
    and "loggerLevel s' = loggerLevel s"
  using assms
  by (auto simp: ensureEntryPoint_def pathExistsSync_def writeFileSync_Done)

lemma ensureEntryPoint_declined:
  assumes "fsys s (appPath env u) \<noteq> None \<or> fsys s (appPathTS env u) \<noteq> None"
    and "answer \<noteq> Some True"
  shows "ensureEntryPoint env u answer s =
           Done (logger_info (HeadsUp (AppJsContent env u None))
                   (emit (Prompt (if fsys s (appPath env u) \<noteq> None then ''.js'' else ''.tsx'')) s))"
  using assms
  by (auto simp: ensureEntryPoint_def pathExistsSync_def existsSync_def)

lemma ensureEntryPoint_confirmed:
  assumes "ensureEntryPoint env u (Some True) s = Done s'"
    and "fsys s (appPath env u) \<noteq> None \<or> fsys s (appPathTS env u) \<noteq> None"
    and "p = (if fsys s (appPath env u) \<noteq> None then appPath env u else appPathTS env u)"
  shows "\<exists>fileContent.
           fsys s p = Some (File fileContent)
         \<and> fsys s' = (fsys s)
             (p \<mapsto> File (AppJsContent env u
                            (Some (joinWith [newline] (styleImports fileContent)))))"
    and "loggerLevel s' = loggerLevel s"
    and "events s' = events s
           @ [Prompt (if fsys s (appPath env u) \<noteq> None then ''.js'' else ''.tsx''),
              Logger (loggerLevel s) Info
                (AddingApp (if fsys s (appPath env u) \<noteq> None then ''.js'' else ''.tsx''))]"
proof -
  have js: "pjoin (pagesPath env u) [''_app.js''] = appPath env u"
    and tsx: "pjoin (pagesPath env u) [''_app.tsx''] = appPathTS env u"
    by (simp_all add: appPath_def appPathTS_def)
  from assms
  show "\<exists>fileContent.
           fsys s p = Some (File fileContent)
         \<and> fsys s' = (fsys s)
             (p \<mapsto> File (AppJsContent env u
                            (Some (joinWith [newline] (styleImports fileContent)))))"
    by (auto simp: ensureEntryPoint_def Let_def pathExistsSync_def existsSync_def js tsx
                   writeFileSync_Done readFileSync_def logger_info_def emit_def
             split: if_splits sum.splits option.splits node.splits)
  from assms
  show "loggerLevel s' = loggerLevel s"
    and "events s' = events s
           @ [Prompt (if fsys s (appPath env u) \<noteq> None then ''.js'' else ''.tsx''),
              Logger (loggerLevel s) Info
                (AddingApp (if fsys s (appPath env u) \<noteq> None then ''.js'' else ''.tsx''))]"
    by (auto simp: ensureEntryPoint_def Let_def pathExistsSync_def existsSync_def
                   writeFileSync_Done readFileSync_def logger_info_def emit_def
             split: if_splits sum.splits option.splits node.splits)
qed

lemma ensureEntryPoint_Done:
  assumes "ensureEntryPoint env u answer s = Done s'"
  shows "fsys s' (appPath env u) \<noteq> None \<or> fsys s' (appPathTS env u) \<noteq> None"
    and "loggerLevel s' = loggerLevel s"
proof -
  from ensureEntryPoint_evolves [of s env u answer] assms
  have e: "evolves (if fsys s (appPath env u) = None \<and> fsys s (appPathTS env u) = None
                    then {appPath env u}
                    else if answer = Some True
                    then {if fsys s (appPath env u) = None then appPathTS env u else appPath env u}
                    else {}) {} (fsys s) (fsys s')"
    by simp
  show "fsys s' (appPath env u) \<noteq> None \<or> fsys s' (appPathTS env u) \<noteq> None"
  proof (cases "fsys s (appPath env u) = None \<and> fsys s (appPathTS env u) = None")
    case True
    with ensureEntryPoint_fresh(1) [OF assms] show ?thesis by simp
  next
    case False
    then show ?thesis using evolves_exists [OF e] by blast
  qed
  show "loggerLevel s' = loggerLevel s"
    using assms
    by (auto simp: ensureEntryPoint_def Let_def writeFileSync_Done logger_info_def emit_def
             split: if_splits sum.splits)
qed

lemma ensureDemoPage_Done:
  assumes "ensureDemoPage env u s = Done s'"
  shows "fsys s' (tinaBlogPagePathFile env u) \<noteq> None" and "loggerLevel s' = loggerLevel s"
    and "events s' = events s"
  using assms
  by (auto simp: ensureDemoPage_def pathExistsSync_def andThen_eq_Done writeFileSync_Done
                 mkdirpSync_Done
           split: if_splits)

lemma updateManifest_Done:
  assumes "updateManifest env s = Done s'"
  shows "\<exists>text pack scripts.
           fsys s (packagePath env) = Some (File text)
         \<and> parseJSON env text = Some pack
         \<and> getScripts pack = Inr scripts
         \<and> s' = s\<lparr>fsys := (fsys s)(packagePath env \<mapsto>
                   File (JSON_stringify (numberToString env) 2 (newPackOf env pack scripts)))\<rparr>"
    and "fsys s (baseDir env) = Some Dir"
  using assms
  by (auto simp: updateManifest_def readFileSync_def writeFileSync_Done packagePath_def pjoin_def
           split: sum.splits option.splits node.splits)

lemma ensureAdminPage_taken:
  assumes "fsys s (pjoin (pagesPath env u) [''admin'']) \<noteq> None"
  shows "ensureAdminPage env u next s = next (logger_warn UnableToAddAdmin s)"
  using assms by (simp add: ensureAdminPage_def pathExistsSync_def)

lemma ensureAdminPage_written:
  assumes "ensureAdminPage env u Done s = Done s'"
    and "fsys s (pjoin (pagesPath env u) [''admin'']) = None"
  shows "fsys s' (adminPath env u) = Some (File (adminPage env))"
    and "fsys s' (pagesPath env u) = Some Dir"
    and "events s' = events s"
proof -
  have b: "butlast (adminPath env u) = pagesPath env u"
    by (simp add: adminPath_def pjoin_def butlast_append)
  have ne: "pagesPath env u \<noteq> adminPath env u"
    by (simp add: adminPath_def pjoin_def)
  from assms have "outputFileSync (adminPath env u) (adminPage env) s = Done s'"
    by (simp add: ensureAdminPage_def pathExistsSync_def)
  then obtain s0 where w: "writeFileSync (adminPath env u) (adminPage env) s0 = Done s'"
    and e: "events s0 = events s"
    by (auto simp: outputFileSync_def Let_def andThen_eq_Done mkdirpSync_Done split: if_splits)
  from w b ne show "fsys s' (adminPath env u) = Some (File (adminPage env))"
    and "fsys s' (pagesPath env u) = Some Dir"
    by (auto simp: writeFileSync_Done)
  from w e show "events s' = events s"
    by (auto simp: writeFileSync_Done)
qed

lemma ensureAdminPage_events:
  assumes "ensureAdminPage env u Done s = Done s'"
  shows "\<exists>after. events s' = events s @ after"
proof (cases "fsys s (pjoin (pagesPath env u) [''admin'']) = None")
  case True
  with ensureAdminPage_written(3) [OF assms] show ?thesis by simp
next
  case False
  with assms show ?thesis
    by (auto simp: ensureAdminPage_taken logger_warn_def)
qed

section \<open>The anatomy of a run that returns\<close>

lemma tinaSetup_anatomy:
  assumes "tinaSetup env answer Done s = Done s'"
  obtains (steps) s1 s2 s3 s4 s5 u where
    "u = pathExistsSync (fsys s) (pjoin (baseDir env) [''src''])"
    "ensureSampleContent env s = Done s1"
    "ensureProviders env s1 = Done s2"
    "ensureEntryPoint env u answer (s2\<lparr>loggerLevel := ''info''\<rparr>) = Done s3"
    "ensureDemoPage env u s3 = Done s4"
    "updateManifest env (logger_info AddingContentFolderDone s4) = Done s5"
    "ensureAdminPage env u Done s5 = Done s'"
    "evolves {blogPostPath env} (set (ancestors (blogContentPath env))) (fsys s) (fsys s1)"
    "evolves {TinaProviderPath env, TinaDynamicProvider env}
       (set (ancestors (componentFolder env))) (fsys s1) (fsys s2)"
    "evolves {appPath env u, appPathTS env u} {} (fsys s2) (fsys s3)"
    "evolves {tinaBlogPagePathFile env u} (set (ancestors (tinaBlogPagePath env u)))
       (fsys s3) (fsys s4)"
    "evolves {packagePath env} {} (fsys s4) (fsys s5)"
    "evolves {adminPath env u} (set (ancestors (pagesPath env u))) (fsys s5) (fsys s')"
    "loggerLevel s5 = ''info''"
    "\<exists>after. events s' = events s3 @ after"
proof -
  define u where "u = pathExistsSync (fsys s) (pjoin (baseDir env) [''src''])"
  from assms obtain s1 s2 s3 s4 s5 where
    r1: "ensureSampleContent env s = Done s1"
    and r2: "ensureProviders env s1 = Done s2"
    and r3: "ensureEntryPoint env u answer (s2\<lparr>loggerLevel := ''info''\<rparr>) = Done s3"
    and r4: "ensureDemoPage env u s3 = Done s4"
    and r5: "updateManifest env (logger_info AddingContentFolderDone s4) = Done s5"
    and r6: "ensureAdminPage env u Done s5 = Done s'"
    unfolding tinaSetup_Done u_def by blast
  have e1: "evolves {blogPostPath env} (set (ancestors (blogContentPath env))) (fsys s) (fsys s1)"
    using ensureSampleContent_evolves [of s env] r1
    by (auto elim: evolves_mono split: if_splits)
  have e2: "evolves {TinaProviderPath env, TinaDynamicProvider env}
              (set (ancestors (componentFolder env))) (fsys s1) (fsys s2)"
    using ensureProviders_evolves [of s1 env] r2
    by (auto elim: evolves_mono split: if_splits)
  have e3: "evolves {appPath env u, appPathTS env u} {} (fsys s2) (fsys s3)"
    using ensureEntryPoint_evolves [of "s2\<lparr>loggerLevel := ''info''\<rparr>" env u answer] r3
    by (auto elim: evolves_mono split: if_splits)
  have e4: "evolves {tinaBlogPagePathFile env u} (set (ancestors (tinaBlogPagePath env u)))
              (fsys s3) (fsys s4)"
    using ensureDemoPage_evolves [of s3 env u] r4
    by (auto elim: evolves_mono split: if_splits)
  have e5: "evolves {packagePath env} {} (fsys s4) (fsys s5)"
    using updateManifest_evolves [of env "logger_info AddingContentFolderDone s4"] r5
    by simp
  have e6: "evolves {adminPath env u} (set (ancestors (pagesPath env u))) (fsys s5) (fsys s')"
    using ensureAdminPage_evolves [of s5 env u] r6
    by (auto elim: evolves_mono split: if_splits)
  have "loggerLevel s3 = ''info''"
    using ensureEntryPoint_Done(2) [OF r3] by simp
  then have "loggerLevel s4 = ''info''"
    using ensureDemoPage_Done(2) [OF r4] by simp
  moreover from updateManifest_Done(1) [OF r5]
  have "loggerLevel s5 = loggerLevel (logger_info AddingContentFolderDone s4)"
    by auto
  ultimately have l5: "loggerLevel s5 = ''info''"
    by simp
  from updateManifest_Done(1) [OF r5]
  have "events s5 = events s4 @ [Logger (loggerLevel s4) Info AddingContentFolderDone]"
    by (auto simp: logger_info_def)
  with ensureDemoPage_Done(3) [OF r4] ensureAdminPage_events [OF r6]
  have ev: "\<exists>after. events s' = events s3 @ after"
    by auto
  from u_def r1 r2 r3 r4 r5 r6 e1 e2 e3 e4 e5 e6 l5 ev show thesis
    by (rule that)
qed

section \<open>The first two stages\<close>

text \<open>
  C3. Whether telemetry is disabled or not, and whether or not the record is delivered,
  \<^verbatim>\<open>initTina\<close> logs its message and calls its continuation; it never throws by itself.
  (\<open>submitRecord\<close> is modelled from the spec; \<^verbatim>\<open>initTina\<close> has no handler of its own.)
\<close>

theorem initTina_calls_next:
  "initTina env noTelemetry next s =
     next (logger_info SettingUpTina
             (if noTelemetry then s
              else emit (TelemetryRecord ''tinacms:cli:init:invoke'' (telemetryDelivers env)) s))"
  by (simp add: initTina_def submitRecord_def)

theorem initTina_calls_next_witness:
  "initTina exampleEnv False Done (exampleState exampleFs)
     = Done (logger_info SettingUpTina
               (emit (TelemetryRecord ''tinacms:cli:init:invoke'' False) (exampleState exampleFs)))
   \<and> returns (initTina exampleEnv False
                (installDeps exampleEnv (tinaSetup exampleEnv None (successMessage Done)))
                (exampleState exampleFs))"
proof -
  have t: "telemetryDelivers exampleEnv = False"
    by (simp add: exampleEnv_def)
  have "returns (installDeps exampleEnv (tinaSetup exampleEnv None (successMessage Done))
                   (logger_info SettingUpTina
                      (emit (TelemetryRecord ''tinacms:cli:init:invoke'' False)
                         (exampleState exampleFs))))"
    by code_simp
  with initTina_calls_next [of exampleEnv False Done "exampleState exampleFs"]
       initTina_calls_next [of exampleEnv False
         "installDeps exampleEnv (tinaSetup exampleEnv None (successMessage Done))"
         "exampleState exampleFs"] t
  show ?thesis
    by simp
qed

text \<open>
  C6. Whatever the exit status of the subprocess, \<^verbatim>\<open>execShellCommand\<close> resolves, with
  the standard output or else the standard error, after \<^verbatim>\<open>console.warn\<close> when there is
  an error; \<^verbatim>\<open>installDeps\<close> then ticks the progress bar, sets the logger level to
  \<^verbatim>\<open>fatal\<close> and calls its continuation.
\<close>

theorem installDeps_calls_next:
  "fst (execShellCommand env cmd s) =
     Resolved (let r = fst (shell env cmd (fsys s))
               in if stdout r \<noteq> [] then stdout r else stderr r)
   \<and> events (snd (execShellCommand env cmd s)) =
       events s @ (let r = fst (shell env cmd (fsys s))
                   in if status r = Exited 0 then [] else [ConsoleWarn (status r)])
   \<and> installDeps env next s =
       next ((emit (ProgressTick ''done'')
                (snd (execShellCommand env (js ''yarn add tinacms styled-components @tinacms/cli'')
                        (emit (ProgressTick []) s))))
             \<lparr>loggerLevel := ''fatal''\<rparr>)"
proof -
  obtain r fs' where r: "shell env cmd (fsys s) = (r, fs')"
    by (cases "shell env cmd (fsys s)")
  have cmd: "js ''yarn add '' @ joinWith (js '' '')
               [js ''tinacms'', js ''styled-components'', js ''@tinacms/cli'']
             = js ''yarn add tinacms styled-components @tinacms/cli''"
    by (simp add: js_def)
  have "\<exists>out t'. execShellCommand env c t = (Resolved out, t')" for c t
    by (cases "shell env c (fsys t)") (simp add: execShellCommand_def Let_def)
  then obtain out t' where
    "execShellCommand env (js ''yarn add tinacms styled-components @tinacms/cli'')
       (emit (ProgressTick []) s) = (Resolved out, t')"
    by blast
  then have "installDeps env next s =
       next ((emit (ProgressTick ''done'')
                (snd (execShellCommand env (js ''yarn add tinacms styled-components @tinacms/cli'')
                        (emit (ProgressTick []) s))))
             \<lparr>loggerLevel := ''fatal''\<rparr>)"
    unfolding installDeps_def Let_def cmd by simp
  with r show ?thesis
    by (simp add: execShellCommand_def Let_def)
qed

theorem installDeps_calls_next_witness:
  "fst (execShellCommand exampleEnv (js ''yarn'') (exampleState exampleFs)) = Resolved (js ''no yarn'')
   \<and> events (snd (execShellCommand exampleEnv (js ''yarn'') (exampleState exampleFs)))
       = [ConsoleWarn (Exited 1)]
   \<and> installDeps exampleEnv Done (exampleState exampleFs)
       = Done \<lparr>fsys = exampleFs, loggerLevel = ''fatal'',
               events = [ProgressTick [], ConsoleWarn (Exited 1), ProgressTick ''done'']\<rparr>"
proof -
  have sh: "shell exampleEnv cmd fs
              = (\<lparr>status = Exited 1, stdout = [], stderr = js ''no yarn''\<rparr>, fs)" for cmd fs
    by (simp add: exampleEnv_def)
  have e: "execShellCommand exampleEnv cmd st
             = (Resolved (js ''no yarn''), emit (ConsoleWarn (Exited 1)) st)" for cmd st
    by (simp add: execShellCommand_def sh)
  from installDeps_calls_next [of exampleEnv "js ''yarn''" "exampleState exampleFs" Done]
  show ?thesis
    by (simp add: e sh exampleState_def emit_def)
qed

section \<open>The manifest\<close>

lemma map_of_fold_update:
  "map_of (fold (\<lambda>kv. AList.update (fst kv) (JStr (snd kv))) table es) k
     = (case map_of (rev table) k of Some c \<Rightarrow> Some (JStr c) | None \<Rightarrow> map_of es k)"
proof (induction table arbitrary: es)
  case Nil
  then show ?case by simp
next
  case (Cons x table)
  show ?case
    by (cases x) (simp add: Cons.IH update_conv' map_add_def split: option.splits)
qed

lemma before_manifest:
  assumes "evolves {blogPostPath env} (set (ancestors (blogContentPath env))) (fsys s) (fsys s1)"
    and "evolves {TinaProviderPath env, TinaDynamicProvider env}
           (set (ancestors (componentFolder env))) (fsys s1) (fsys s2)"
    and "evolves {appPath env u, appPathTS env u} {} (fsys s2) (fsys s3)"
    and "evolves {tinaBlogPagePathFile env u} (set (ancestors (tinaBlogPagePath env u)))
           (fsys s3) (fsys s4)"
  shows "fsys s4 (packagePath env) = fsys s (packagePath env)"
proof -
  note e = evolves_trans [OF assms(1) evolves_trans [OF assms(2) evolves_trans [OF assms(3,4)]]]
  show ?thesis
    by (rule evolves_same [OF e]) (simp_all add: path_defs in_ancestors)
qed

text \<open>
  The manifest of a run that returns: the old text parsed, the new value serialised in
  its place. It survives the admin step.
\<close>

lemma tinaSetup_manifest:
  assumes "tinaSetup env answer Done s = Done s'"
  shows "\<exists>text pack scripts.
           fsys s (packagePath env) = Some (File text)
         \<and> parseJSON env text = Some pack
         \<and> getScripts pack = Inr scripts
         \<and> fsys s' (packagePath env)
             = Some (File (JSON_stringify (numberToString env) 2 (newPackOf env pack scripts)))
         \<and> fsys s' (baseDir env) = Some Dir"
  using assms
proof (cases rule: tinaSetup_anatomy)
  case (steps s1 s2 s3 s4 s5 u)
  let ?s4 = "logger_info AddingContentFolderDone s4"
  from updateManifest_Done [OF steps(6)] obtain content pack scripts where
    t: "fsys ?s4 (packagePath env) = Some (File content)"
    and p: "parseJSON env content = Some pack" and g: "getScripts pack = Inr scripts"
    and s5: "s5 = ?s4\<lparr>fsys := (fsys ?s4)(packagePath env \<mapsto>
               File (JSON_stringify (numberToString env) 2 (newPackOf env pack scripts)))\<rparr>"
    and d: "fsys ?s4 (baseDir env) = Some Dir"
    by blast
  from t before_manifest [OF steps(8,9,10,11)]
  have old: "fsys s (packagePath env) = Some (File content)" by simp
  from s5 have new: "fsys s5 (packagePath env)
      = Some (File (JSON_stringify (numberToString env) 2 (newPackOf env pack scripts)))"
    by simp
  from s5 d have d5: "fsys s5 (baseDir env) = Some Dir"
    by (simp add: packagePath_def pjoin_def)
  have "fsys s' (packagePath env) = fsys s5 (packagePath env)"
    by (rule evolves_kept [OF steps(13)]) (simp add: path_defs, simp add: new)
  moreover have "fsys s' (baseDir env) = fsys s5 (baseDir env)"
    by (rule evolves_kept [OF steps(13)]) (simp add: path_defs, simp add: d5)
  ultimately show ?thesis
    using old p g new d5 by auto
qed

text \<open>
  C7. A run that returns has parsed the text of \<^verbatim>\<open>package.json\<close> and written in its
  place the serialisation, with an indentation of 2 spaces, of the object that has the
  properties of the parsed value and, as \<^verbatim>\<open>scripts\<close>, the extended scripts. Every other
  property of the parsed value is kept, in its place; in the scripts, every entry whose
  name is not injected is kept and every injected entry is there. The text written has
  one member a line, after two spaces.
\<close>

theorem manifest_updated:
  assumes "tinaSetup env answer Done s = Done s'"
  shows "\<exists>text pack scripts oldScripts members.
           fsys s (packagePath env) = Some (File text)
         \<and> parseJSON env text = Some pack
         \<and> getScripts pack = Inr scripts
         \<and> oldScripts = (case scripts of None \<Rightarrow> JObj []
                          | Some v \<Rightarrow> if truthy v then v else JObj [])
         \<and> members = AList.update (js ''scripts'') (extendNextScripts env oldScripts)
                        (ownEntries pack)
         \<and> fsys s' (packagePath env)
             = Some (File (JSON_stringify (numberToString env) 2 (JObj members)))
         \<and> JSON_stringify (numberToString env) 2 (JObj members)
             = js ''{'' @ [newline] @ js ''  ''
               @ joinWith (js '','' @ [newline] @ js ''  '')
                   (map (\<lambda>kv. quoteJSONString (fst kv) @ js '': ''
                               @ serialize (numberToString env) (js ''  '') (js ''  '') (snd kv))
                      members)
               @ [newline] @ js ''}''
         \<and> map fst members
             = (if js ''scripts'' \<in> set (map fst (ownEntries pack)) then map fst (ownEntries pack)
                else map fst (ownEntries pack) @ [js ''scripts''])
         \<and> map_of members
             = (map_of (ownEntries pack))(js ''scripts'' \<mapsto> extendNextScripts env oldScripts)
         \<and> (\<forall>k. map_of (ownEntries (extendNextScripts env oldScripts)) k
                  = (case map_of (rev (injectedScripts env)) k of
                       Some command \<Rightarrow> Some (JStr command)
                     | None \<Rightarrow> map_of (ownEntries oldScripts) k))"
proof -
  from tinaSetup_manifest [OF assms] obtain content pack scripts where
    a: "fsys s (packagePath env) = Some (File content)" "parseJSON env content = Some pack"
    "getScripts pack = Inr scripts"
    and w: "fsys s' (packagePath env)
              = Some (File (JSON_stringify (numberToString env) 2 (newPackOf env pack scripts)))"
    by blast
  define oldScripts where
    "oldScripts = (case scripts of None \<Rightarrow> JObj [] | Some v \<Rightarrow> if truthy v then v else JObj [])"
  define members where
    "members = AList.update (js ''scripts'') (extendNextScripts env oldScripts) (ownEntries pack)"
  have n: "newPackOf env pack scripts = JObj members"
    by (simp add: newPackOf_def members_def oldScripts_def)
  have ne: "members \<noteq> []"
    by (simp add: members_def)
  have two: "replicate (min 10 2) (0x20 :: jschar) = js ''  ''"
    by (simp add: js_def numeral_2_eq_2)
  have t: "JSON_stringify (numberToString env) 2 (JObj members)
             = js ''{'' @ [newline] @ js ''  ''
               @ joinWith (js '','' @ [newline] @ js ''  '')
                   (map (\<lambda>kv. quoteJSONString (fst kv) @ js '': ''
                               @ serialize (numberToString env) (js ''  '') (js ''  '') (snd kv))
                      members)
               @ [newline] @ js ''}''"
    unfolding JSON_stringify_def two using ne by (simp add: Let_def js_def)
  have k: "map fst members
             = (if js ''scripts'' \<in> set (map fst (ownEntries pack)) then map fst (ownEntries pack)
                else map fst (ownEntries pack) @ [js ''scripts''])"
    unfolding members_def by (rule update_keys)
  have m: "map_of members
             = (map_of (ownEntries pack))(js ''scripts'' \<mapsto> extendNextScripts env oldScripts)"
    unfolding members_def by (rule update_conv')
  have e: "map_of (ownEntries (extendNextScripts env oldScripts)) k
             = (case map_of (rev (injectedScripts env)) k of
                  Some command \<Rightarrow> Some (JStr command)
                | None \<Rightarrow> map_of (ownEntries oldScripts) k)" for k
    by (simp add: extendNextScripts_def map_of_fold_update)
  from a w [unfolded n] oldScripts_def members_def t k m e show ?thesis
    by blast
qed

theorem manifest_updated_witness:
  "returns (tinaSetup exampleEnv None Done (exampleState exampleFs))
   \<and> exampleFs (packagePath exampleEnv) = Some (File exampleManifestText)
   \<and> parseJSON exampleEnv exampleManifestText
       = Some (JObj [(js ''scripts'', JObj [(js ''start'', JStr (js ''x''))])])
   \<and> fsys (stateOf (tinaSetup exampleEnv None Done (exampleState exampleFs)))
        (packagePath exampleEnv)
       = Some (File (JSON_stringify (numberToString exampleEnv) 2
                       (JObj [(js ''scripts'',
                               JObj [(js ''start'', JStr (js ''x'')),
                                     (js ''dev'', JStr (js ''tina dev'')),
                                     (js ''build'', JStr (js ''tina build''))])])))
   \<and> JSON_stringify (numberToString exampleEnv) 2
         (JObj [(js ''scripts'',
                 JObj [(js ''start'', JStr (js ''x'')),
                       (js ''dev'', JStr (js ''tina dev'')),
                       (js ''build'', JStr (js ''tina build''))])])
       = exampleNewManifestText"
proof -
  have r: "returns (tinaSetup exampleEnv None Done (exampleState exampleFs))"
    by code_simp
  then obtain s' where s': "tinaSetup exampleEnv None Done (exampleState exampleFs) = Done s'"
    by (auto simp: returns_def split: outcome.splits)
  have f: "exampleFs (packagePath exampleEnv) = Some (File exampleManifestText)"
    by code_simp
  have p: "parseJSON exampleEnv exampleManifestText
             = Some (JObj [(js ''scripts'', JObj [(js ''start'', JStr (js ''x''))])])"
    by code_simp
  have g: "getScripts (JObj [(js ''scripts'', JObj [(js ''start'', JStr (js ''x''))])])
             = Inr (Some (JObj [(js ''start'', JStr (js ''x''))]))"
    by code_simp
  have m: "AList.update (js ''scripts'')
             (extendNextScripts exampleEnv (JObj [(js ''start'', JStr (js ''x''))]))
             (ownEntries (JObj [(js ''scripts'', JObj [(js ''start'', JStr (js ''x''))])]))
           = [(js ''scripts'',
               JObj [(js ''start'', JStr (js ''x'')),
                     (js ''dev'', JStr (js ''tina dev'')),
                     (js ''build'', JStr (js ''tina build''))])]"
    by code_simp
  have t: "JSON_stringify (numberToString exampleEnv) 2
             (JObj [(js ''scripts'',
                     JObj [(js ''start'', JStr (js ''x'')),
                           (js ''dev'', JStr (js ''tina dev'')),
                           (js ''build'', JStr (js ''tina build''))])])
           = exampleNewManifestText"
    by code_simp
  from manifest_updated [OF s'] obtain content pack scripts oldScripts members where
    a: "fsys (exampleState exampleFs) (packagePath exampleEnv) = Some (File content)"
    "parseJSON exampleEnv content = Some pack"
    "getScripts pack = Inr scripts"
    "oldScripts = (case scripts of None \<Rightarrow> JObj []
                   | Some v \<Rightarrow> if truthy v then v else JObj [])"
    "members = AList.update (js ''scripts'') (extendNextScripts exampleEnv oldScripts)
                 (ownEntries pack)"
    "fsys s' (packagePath exampleEnv)
       = Some (File (JSON_stringify (numberToString exampleEnv) 2 (JObj members)))"
    by blast
  from a(1) f have "content = exampleManifestText"
    by (simp add: exampleState_def)
  with a(2) p have "pack = JObj [(js ''scripts'', JObj [(js ''start'', JStr (js ''x''))])]"
    by simp
  moreover from this a(3) g have "scripts = Some (JObj [(js ''start'', JStr (js ''x''))])"
    by simp
  moreover from this a(4) have "oldScripts = JObj [(js ''start'', JStr (js ''x''))]"
    by simp
  ultimately have "members = [(js ''scripts'',
               JObj [(js ''start'', JStr (js ''x'')),
                     (js ''dev'', JStr (js ''tina dev'')),
                     (js ''build'', JStr (js ''tina build''))])]"
    using a(5) m by simp
  with a(6) r f p t s' show ?thesis
    by simp
qed

section \<open>The admin page\<close>

lemma before_admin_page:
  assumes "evolves {blogPostPath env} (set (ancestors (blogContentPath env))) (fsys s) (fsys s1)"
    and "evolves {TinaProviderPath env, TinaDynamicProvider env}
           (set (ancestors (componentFolder env))) (fsys s1) (fsys s2)"
    and "evolves {appPath env u, appPathTS env u} {} (fsys s2) (fsys s3)"
    and "evolves {tinaBlogPagePathFile env u} (set (ancestors (tinaBlogPagePath env u)))
           (fsys s3) (fsys s4)"
    and "evolves {packagePath env} {} (fsys s4) (fsys s5)"
  shows "fsys s5 (pjoin (pagesPath env u) [''admin'']) = fsys s (pjoin (pagesPath env u) [''admin''])"
    and "fsys s5 (adminPath env u) = fsys s (adminPath env u)"
proof -
  note e = evolves_trans [OF assms(1) evolves_trans [OF assms(2) evolves_trans
             [OF assms(3) evolves_trans [OF assms(4,5)]]]]
  show "fsys s5 (pjoin (pagesPath env u) [''admin'']) = fsys s (pjoin (pagesPath env u) [''admin''])"
    by (rule evolves_same [OF e]) (simp_all add: path_defs in_ancestors)
  show "fsys s5 (adminPath env u) = fsys s (adminPath env u)"
    by (rule evolves_same [OF e]) (simp_all add: path_defs in_ancestors)
qed

text \<open>
  C1, as the code has it. The guard is \<^verbatim>\<open>pathExistsSync\<close>, true of a directory and of a
  file alike. In a run that returns: when the path \<^verbatim>\<open>pages/admin\<close> exists, as a
  directory or as a file, \<^verbatim>\<open>pages/admin.js\<close> is as it was and the last thing printed is
  the warning, at logger level \<^verbatim>\<open>info\<close>; when no path \<^verbatim>\<open>pages/admin\<close> exists,
  \<^verbatim>\<open>pages/admin.js\<close> holds the generated admin page whatever it held before. In both
  cases the continuation is called, so that the success message follows.
\<close>

theorem admin_page_collision:
  assumes "tinaSetup env answer Done s = Done s'"
    and "u = pathExistsSync (fsys s) (pjoin (baseDir env) [''src''])"
  shows "(if fsys s (pjoin (pagesPath env u) [''admin'']) \<noteq> None
          then fsys s' (adminPath env u) = fsys s (adminPath env u)
             \<and> (\<exists>before. events s' = before @ [Logger ''info'' Warn UnableToAddAdmin])
          else fsys s' (adminPath env u) = Some (File (adminPage env)))
       \<and> (\<forall>next. tinaSetup env answer next s = next s')
       \<and> tinaSetup env answer (successMessage Done) s = Done (logger_info SetupDone s')"
proof -
  have nxt: "tinaSetup env answer next s = next s'" for "next"
    using tinaSetup_next [of env answer "next" s] assms(1) by simp
  from assms(1)
  have "if fsys s (pjoin (pagesPath env u) [''admin'']) \<noteq> None
        then fsys s' (adminPath env u) = fsys s (adminPath env u)
           \<and> (\<exists>before. events s' = before @ [Logger ''info'' Warn UnableToAddAdmin])
        else fsys s' (adminPath env u) = Some (File (adminPage env))"
  proof (cases rule: tinaSetup_anatomy)
    case (steps s1 s2 s3 s4 s5 u')
    from steps(1) assms(2) have u: "u' = u" by simp
    note b = before_admin_page [OF steps(8,9,10,11,12), unfolded u]
    have r6: "ensureAdminPage env u Done s5 = Done s'"
      using steps(7) u by simp
    show ?thesis
    proof (cases "fsys s (pjoin (pagesPath env u) [''admin'']) \<noteq> None")
      case True
      with b have "fsys s5 (pjoin (pagesPath env u) [''admin'']) \<noteq> None" by simp
      from ensureAdminPage_taken [OF this, of Done] r6
      have "s' = logger_warn UnableToAddAdmin s5" by simp
      with steps(14) b True show ?thesis
        by (simp add: logger_warn_def)
    next
      case False
      with b have "fsys s5 (pjoin (pagesPath env u) [''admin'']) = None" by simp
      from ensureAdminPage_written(1) [OF r6 this] False show ?thesis
        by simp
    qed
  qed
  with nxt show ?thesis
    by (simp add: successMessage_def)
qed

theorem admin_page_collision_witness:
  "returns (tinaSetup exampleEnv (Some True) Done (exampleState exampleBusyFs))
   \<and> exampleBusyFs [''app'', ''pages'', ''admin''] = Some Dir
   \<and> fsys (stateOf (tinaSetup exampleEnv (Some True) Done (exampleState exampleBusyFs)))
        [''app'', ''pages'', ''admin.js''] = Some (File (js ''old admin''))
   \<and> (\<exists>before. events (stateOf (tinaSetup exampleEnv (Some True) Done
                                    (exampleState exampleBusyFs)))
                   = before @ [Logger ''info'' Warn UnableToAddAdmin])
   \<and> returns (tinaSetup exampleEnv (Some True) (successMessage Done) (exampleState exampleBusyFs))
   \<and> returns (tinaSetup exampleEnv None Done
                (exampleState (exampleFs([''app'', ''pages'', ''admin.js''] \<mapsto> File (js ''old admin'')))))
   \<and> fsys (stateOf (tinaSetup exampleEnv None Done
                (exampleState (exampleFs([''app'', ''pages'', ''admin.js''] \<mapsto> File (js ''old admin''))))))
        [''app'', ''pages'', ''admin.js''] = Some (File (js ''admin page''))"
proof -
  let ?busy = "exampleState exampleBusyFs"
  let ?fresh = "exampleState (exampleFs([''app'', ''pages'', ''admin.js''] \<mapsto> File (js ''old admin'')))"
  have u1: "False = pathExistsSync (fsys ?busy) (pjoin (baseDir exampleEnv) [''src''])"
    and u2: "False = pathExistsSync (fsys ?fresh) (pjoin (baseDir exampleEnv) [''src''])"
    by code_simp+
  have p: "pjoin (pagesPath exampleEnv False) [''admin''] = [''app'', ''pages'', ''admin'']"
    "adminPath exampleEnv False = [''app'', ''pages'', ''admin.js'']"
    "adminPage exampleEnv = js ''admin page''"
    by code_simp+
  have a: "exampleBusyFs [''app'', ''pages'', ''admin''] = Some Dir"
    "exampleBusyFs [''app'', ''pages'', ''admin.js''] = Some (File (js ''old admin''))"
    "(exampleFs([''app'', ''pages'', ''admin.js''] \<mapsto> File (js ''old admin'')))
       [''app'', ''pages'', ''admin''] = None"
    by code_simp+
  have r1: "returns (tinaSetup exampleEnv (Some True) Done ?busy)"
    by code_simp
  then obtain s1 where s1: "tinaSetup exampleEnv (Some True) Done ?busy = Done s1"
    by (auto simp: returns_def split: outcome.splits)
  have r2: "returns (tinaSetup exampleEnv None Done ?fresh)"
    by code_simp
  then obtain s2 where s2: "tinaSetup exampleEnv None Done ?fresh = Done s2"
    by (auto simp: returns_def split: outcome.splits)
  from admin_page_collision [OF s1 u1] admin_page_collision [OF s2 u2] s1 s2 a
  show ?thesis
    unfolding p by (simp add: exampleState_def returns_def successMessage_def)
qed

text \<open>
  C1 as it is stated fails where \<^verbatim>\<open>pages/admin\<close> is a regular file: no directory of
  that name exists and \<^verbatim>\<open>pages/admin.js\<close> is a file, yet the run warns and leaves
  \<^verbatim>\<open>pages/admin.js\<close> as it was instead of writing the generated admin page over it.
\<close>

theorem admin_page_collision_counterexample:
  "exampleAdminFileFs [''app'', ''pages'', ''admin''] = Some (File (js ''notes''))
   \<and> exampleAdminFileFs [''app'', ''pages'', ''admin''] \<noteq> Some Dir
   \<and> exampleAdminFileFs [''app'', ''pages'', ''admin.js''] = Some (File (js ''old admin''))
   \<and> pathExistsSync exampleAdminFileFs (pjoin (baseDir exampleEnv) [''src'']) = False
   \<and> adminPath exampleEnv False = [''app'', ''pages'', ''admin.js'']
   \<and> returns (tinaSetup exampleEnv None Done (exampleState exampleAdminFileFs))
   \<and> fsys (stateOf (tinaSetup exampleEnv None Done (exampleState exampleAdminFileFs)))
        [''app'', ''pages'', ''admin.js''] = Some (File (js ''old admin''))
   \<and> fsys (stateOf (tinaSetup exampleEnv None Done (exampleState exampleAdminFileFs)))
        [''app'', ''pages'', ''admin.js''] \<noteq> Some (File (adminPage exampleEnv))
   \<and> last (events (stateOf (tinaSetup exampleEnv None Done (exampleState exampleAdminFileFs))))
       = Logger ''info'' Warn UnableToAddAdmin"
proof -
  have "exampleAdminFileFs [''app'', ''pages'', ''admin''] = Some (File (js ''notes''))"
    by code_simp
  moreover have "exampleAdminFileFs [''app'', ''pages'', ''admin''] \<noteq> Some Dir"
    by code_simp
  moreover
  have "exampleAdminFileFs [''app'', ''pages'', ''admin.js''] = Some (File (js ''old admin''))"
    by code_simp
  moreover
  have "pathExistsSync exampleAdminFileFs (pjoin (baseDir exampleEnv) [''src'']) = False"
    by code_simp
  moreover have "adminPath exampleEnv False = [''app'', ''pages'', ''admin.js'']"
    by code_simp
  moreover have "returns (tinaSetup exampleEnv None Done (exampleState exampleAdminFileFs))"
    by code_simp
  moreover
  have "fsys (stateOf (tinaSetup exampleEnv None Done (exampleState exampleAdminFileFs)))
          [''app'', ''pages'', ''admin.js''] = Some (File (js ''old admin''))"
    by code_simp
  moreover
  have "fsys (stateOf (tinaSetup exampleEnv None Done (exampleState exampleAdminFileFs)))
          [''app'', ''pages'', ''admin.js''] \<noteq> Some (File (adminPage exampleEnv))"
    by code_simp
  moreover
  have "last (events (stateOf (tinaSetup exampleEnv None Done (exampleState exampleAdminFileFs))))
          = Logger ''info'' Warn UnableToAddAdmin"
    by code_simp
  ultimately show ?thesis
    by blast
qed

section \<open>The entry point\<close>

lemma before_entry_point:
  assumes "evolves {blogPostPath env} (set (ancestors (blogContentPath env))) (fsys s) (fsys s1)"
    and "evolves {TinaProviderPath env, TinaDynamicProvider env}
           (set (ancestors (componentFolder env))) (fsys s1) (fsys s2)"
  shows "fsys s2 (appPath env u) = fsys s (appPath env u)"
    and "fsys s2 (appPathTS env u) = fsys s (appPathTS env u)"
proof -
  note e = evolves_trans [OF assms]
  show "fsys s2 (appPath env u) = fsys s (appPath env u)"
    by (rule evolves_same [OF e]) (simp_all add: path_defs in_ancestors)
  show "fsys s2 (appPathTS env u) = fsys s (appPathTS env u)"
    by (rule evolves_same [OF e]) (simp_all add: path_defs in_ancestors)
qed

lemma after_entry_point:
  assumes "evolves {tinaBlogPagePathFile env u} (set (ancestors (tinaBlogPagePath env u)))
             (fsys s3) (fsys s4)"
    and "evolves {packagePath env} {} (fsys s4) (fsys s5)"
    and "evolves {adminPath env u} (set (ancestors (pagesPath env u))) (fsys s5) (fsys s')"
    and "p = appPath env u \<or> p = appPathTS env u"
    and "fsys s3 p \<noteq> None"
  shows "fsys s' p = fsys s3 p"
proof -
  note e = evolves_trans [OF assms(1) evolves_trans [OF assms(2,3)]]
  from assms(4) have "p \<notin> {tinaBlogPagePathFile env u} \<union> ({packagePath env} \<union> {adminPath env u})"
    by (auto simp: path_defs)
  then show ?thesis
    by (rule evolves_kept [OF e _ assms(5)])
qed

text \<open>
  When the operator confirms, a run that returns has replaced the entry point that was
  there (\<^verbatim>\<open>_app.js\<close> if it exists, \<^verbatim>\<open>_app.tsx\<close> otherwise) by the text generated from
  the style imports of the old one.
\<close>

lemma tinaSetup_confirmed:
  assumes "tinaSetup env (Some True) Done s = Done s'"
    and "u = pathExistsSync (fsys s) (pjoin (baseDir env) [''src''])"
    and "fsys s (appPath env u) \<noteq> None \<or> fsys s (appPathTS env u) \<noteq> None"
    and "ext = (if fsys s (appPath env u) \<noteq> None then ''.js'' else ''.tsx'')"
  shows "\<exists>fileContent.
           fsys s (pjoin (pagesPath env u) [''_app'' @ ext]) = Some (File fileContent)
         \<and> fsys s' (pjoin (pagesPath env u) [''_app'' @ ext])
             = Some (File (AppJsContent env u
                             (Some (joinWith [newline] (styleImports fileContent)))))
         \<and> Prompt ext \<in> set (events s')"
  using assms(1)
proof (cases rule: tinaSetup_anatomy)
  case (steps s1 s2 s3 s4 s5 u')
  from steps(1) assms(2) have u: "u' = u" by simp
  note b = before_entry_point [OF steps(8,9), of u]
  let ?s2 = "s2\<lparr>loggerLevel := ''info''\<rparr>"
  have r3: "ensureEntryPoint env u (Some True) ?s2 = Done s3"
    using steps(4) u by simp
  have ex: "fsys ?s2 (appPath env u) \<noteq> None \<or> fsys ?s2 (appPathTS env u) \<noteq> None"
    using assms(3) b by simp
  define p where
    "p = (if fsys s (appPath env u) \<noteq> None then appPath env u else appPathTS env u)"
  have p: "pjoin (pagesPath env u) [''_app'' @ ext] = p"
    by (simp add: p_def assms(4) appPath_def appPathTS_def)
  have p2: "p = (if fsys ?s2 (appPath env u) \<noteq> None then appPath env u else appPathTS env u)"
    using b by (simp add: p_def)
  from ensureEntryPoint_confirmed(1) [OF r3 ex p2] obtain fileContent where
    "fsys ?s2 p = Some (File fileContent)"
    and s3: "fsys s3 = (fsys ?s2)(p \<mapsto> File (AppJsContent env u
                            (Some (joinWith [newline] (styleImports fileContent)))))"
    by blast
  then have old: "fsys s p = Some (File fileContent)"
    using b by (auto simp: p_def split: if_splits)
  from s3 have new: "fsys s3 p = Some (File (AppJsContent env u
                            (Some (joinWith [newline] (styleImports fileContent)))))"
    by simp
  have "p = appPath env u \<or> p = appPathTS env u"
    by (simp add: p_def)
  with steps(11,12,13) have "fsys s' p = fsys s3 p"
    unfolding u by (rule after_entry_point) (simp add: new)
  moreover from ensureEntryPoint_confirmed(3) [OF r3 ex p2] steps(15) b
  have "Prompt ext \<in> set (events s')"
    by (auto simp: assms(4))
  ultimately show ?thesis
    using old new unfolding p by auto
qed

text \<open>
  C8. When an entry point exists and the operator does not confirm (declines, or cancels
  the prompt), a run leaves \<^verbatim>\<open>_app.js\<close> and \<^verbatim>\<open>_app.tsx\<close> as they were, however it
  ends; a run that returns has asked and then printed the instructions for manual
  integration, with the generated entry point, at logger level \<^verbatim>\<open>info\<close>.
\<close>

theorem entry_point_declined:
  assumes "u = pathExistsSync (fsys s) (pjoin (baseDir env) [''src''])"
    and "fsys s (appPath env u) \<noteq> None \<or> fsys s (appPathTS env u) \<noteq> None"
    and "answer \<noteq> Some True"
  shows "fsys (stateOf (tinaSetup env answer Done s)) (appPath env u) = fsys s (appPath env u)
       \<and> fsys (stateOf (tinaSetup env answer Done s)) (appPathTS env u) = fsys s (appPathTS env u)
       \<and> (\<forall>s'. tinaSetup env answer Done s = Done s' \<longrightarrow>
             (\<exists>before after.
                events s' = before
                  @ [Prompt (if fsys s (appPath env u) \<noteq> None then ''.js'' else ''.tsx''),
                     Logger ''info'' Info (HeadsUp (AppJsContent env u None))]
                  @ after))"
proof (intro conjI allI impI)
  note fr = tinaSetup_frame [of env answer s]
  show "fsys (stateOf (tinaSetup env answer Done s)) (appPath env u) = fsys s (appPath env u)"
    by (rule evolves_same [OF fr])
       (use assms in \<open>auto simp: writeSet_def dirSet_def Let_def path_defs in_ancestors\<close>)
  show "fsys (stateOf (tinaSetup env answer Done s)) (appPathTS env u) = fsys s (appPathTS env u)"
    by (rule evolves_same [OF fr])
       (use assms in \<open>auto simp: writeSet_def dirSet_def Let_def path_defs in_ancestors\<close>)
next
  fix s' assume "tinaSetup env answer Done s = Done s'"
  then show "\<exists>before after.
                events s' = before
                  @ [Prompt (if fsys s (appPath env u) \<noteq> None then ''.js'' else ''.tsx''),
                     Logger ''info'' Info (HeadsUp (AppJsContent env u None))]
                  @ after"
  proof (cases rule: tinaSetup_anatomy)
    case (steps s1 s2 s3 s4 s5 u')
    from steps(1) assms(1) have u: "u' = u" by simp
    note b = before_entry_point [OF steps(8,9), of u]
    let ?s2 = "s2\<lparr>loggerLevel := ''info''\<rparr>"
    have "fsys ?s2 (appPath env u) \<noteq> None \<or> fsys ?s2 (appPathTS env u) \<noteq> None"
      using assms(2) b by simp
    from ensureEntryPoint_declined [OF this assms(3)] steps(4) b
    have "events s3 = events s2
            @ [Prompt (if fsys s (appPath env u) \<noteq> None then ''.js'' else ''.tsx''),
               Logger ''info'' Info (HeadsUp (AppJsContent env u None))]"
      unfolding u by (auto simp: logger_info_def)
    moreover from steps(15) obtain after where "events s' = events s3 @ after"
      by blast
    ultimately
    have "events s' = events s2
            @ [Prompt (if fsys s (appPath env u) \<noteq> None then ''.js'' else ''.tsx''),
               Logger ''info'' Info (HeadsUp (AppJsContent env u None))]
            @ after"
      by simp
    then show ?thesis
      by blast
  qed
qed

theorem entry_point_declined_witness:
  "exampleBusyFs (appPath exampleEnv False) = Some (File exampleAppText)
   \<and> fsys (stateOf (tinaSetup exampleEnv (Some False) Done (exampleState exampleBusyFs)))
        (appPath exampleEnv False) = Some (File exampleAppText)
   \<and> fsys (stateOf (tinaSetup exampleEnv (Some False) Done (exampleState exampleBusyFs)))
        (appPathTS exampleEnv False) = Some (File (js ''typescript app''))
   \<and> returns (tinaSetup exampleEnv (Some False) Done (exampleState exampleBusyFs))
   \<and> (\<exists>before after.
         events (stateOf (tinaSetup exampleEnv (Some False) Done (exampleState exampleBusyFs)))
           = before @ [Prompt ''.js'', Logger ''info'' Info (HeadsUp (js ''app''))] @ after)"
proof -
  have u: "False = pathExistsSync (fsys (exampleState exampleBusyFs))
                     (pjoin (baseDir exampleEnv) [''src''])"
    by code_simp
  have a: "exampleBusyFs (appPath exampleEnv False) = Some (File exampleAppText)"
    and b: "exampleBusyFs (appPathTS exampleEnv False) = Some (File (js ''typescript app''))"
    by code_simp+
  have r: "returns (tinaSetup exampleEnv (Some False) Done (exampleState exampleBusyFs))"
    by code_simp
  then obtain s' where
    s': "tinaSetup exampleEnv (Some False) Done (exampleState exampleBusyFs) = Done s'"
    by (auto simp: returns_def split: outcome.splits)
  have c: "AppJsContent exampleEnv False None = js ''app''"
    by (simp add: AppJsContent_def exampleEnv_def)
  from entry_point_declined [OF u, of "Some False"] a b r s' c
  show ?thesis
    by (simp add: exampleState_def)
qed

text \<open>
  C9. When both \<^verbatim>\<open>_app.js\<close> and \<^verbatim>\<open>_app.tsx\<close> exist and the operator confirms, the prompt
  names \<^verbatim>\<open>.js\<close>, a run leaves \<^verbatim>\<open>_app.tsx\<close> as it was, however it ends, and a run that
  returns has regenerated \<^verbatim>\<open>_app.js\<close> from the style imports of \<^verbatim>\<open>_app.js\<close>.
\<close>

theorem both_entry_points:
  assumes "u = pathExistsSync (fsys s) (pjoin (baseDir env) [''src''])"
    and "fsys s (appPath env u) \<noteq> None" and "fsys s (appPathTS env u) \<noteq> None"
  shows "fsys (stateOf (tinaSetup env (Some True) Done s)) (appPathTS env u)
           = fsys s (appPathTS env u)
       \<and> (\<forall>s'. tinaSetup env (Some True) Done s = Done s' \<longrightarrow>
             (\<exists>fileContent.
                fsys s (appPath env u) = Some (File fileContent)
              \<and> fsys s' (appPath env u)
                  = Some (File (AppJsContent env u
                                  (Some (joinWith [newline] (styleImports fileContent)))))
              \<and> Prompt ''.js'' \<in> set (events s')))"
proof (intro conjI allI impI)
  show "fsys (stateOf (tinaSetup env (Some True) Done s)) (appPathTS env u)
          = fsys s (appPathTS env u)"
    by (rule evolves_same [OF tinaSetup_frame [of env "Some True" s]])
       (use assms in \<open>auto simp: writeSet_def dirSet_def Let_def path_defs in_ancestors\<close>)
next
  fix s' assume run: "tinaSetup env (Some True) Done s = Done s'"
  have "pjoin (pagesPath env u) [''_app'' @ ''.js''] = appPath env u"
    by (simp add: appPath_def)
  with tinaSetup_confirmed [OF run assms(1), of "''.js''"] assms(2)
  show "\<exists>fileContent.
          fsys s (appPath env u) = Some (File fileContent)
        \<and> fsys s' (appPath env u)
            = Some (File (AppJsContent env u
                            (Some (joinWith [newline] (styleImports fileContent)))))
        \<and> Prompt ''.js'' \<in> set (events s')"
    by simp
qed

theorem both_entry_points_witness:
  "exampleBusyFs (appPath exampleEnv False) = Some (File exampleAppText)
   \<and> exampleBusyFs (appPathTS exampleEnv False) = Some (File (js ''typescript app''))
   \<and> fsys (stateOf (tinaSetup exampleEnv (Some True) Done (exampleState exampleBusyFs)))
        (appPathTS exampleEnv False) = Some (File (js ''typescript app''))
   \<and> returns (tinaSetup exampleEnv (Some True) Done (exampleState exampleBusyFs))
   \<and> fsys (stateOf (tinaSetup exampleEnv (Some True) Done (exampleState exampleBusyFs)))
        (appPath exampleEnv False)
       = Some (File (AppJsContent exampleEnv False
                       (Some (joinWith [newline] (styleImports exampleAppText)))))
   \<and> Prompt ''.js''
       \<in> set (events (stateOf (tinaSetup exampleEnv (Some True) Done (exampleState exampleBusyFs))))"
proof -
  have u: "False = pathExistsSync (fsys (exampleState exampleBusyFs))
                     (pjoin (baseDir exampleEnv) [''src''])"
    by code_simp
  have a: "exampleBusyFs (appPath exampleEnv False) = Some (File exampleAppText)"
    and b: "exampleBusyFs (appPathTS exampleEnv False) = Some (File (js ''typescript app''))"
    by code_simp+
  have r: "returns (tinaSetup exampleEnv (Some True) Done (exampleState exampleBusyFs))"
    by code_simp
  then obtain s' where
    s': "tinaSetup exampleEnv (Some True) Done (exampleState exampleBusyFs) = Done s'"
    by (auto simp: returns_def split: outcome.splits)
  from both_entry_points [OF u] a b r s'
  show ?thesis
    by (simp add: exampleState_def)
qed

section \<open>The style imports\<close>

lemma afterFirst_Some: "afterFirst pat xs = Some r \<Longrightarrow> \<exists>pre. xs = pre @ pat @ r"
proof (induction xs)
  case Nil
  then show ?case by (auto split: if_splits)
next
  case (Cons c cs)
  show ?case
  proof (cases "prefix pat (c # cs)")
    case True
    with Cons.prems have "r = drop (length pat) (c # cs)" by simp
    moreover from True have "pat @ drop (length pat) (c # cs) = c # cs"
      by (auto simp: prefix_def)
    ultimately have "c # cs = [] @ pat @ r" by simp
    then show ?thesis by blast
  next
    case False
    with Cons obtain pre where "cs = pre @ pat @ r" by auto
    then have "c # cs = (c # pre) @ pat @ r" by simp
    then show ?thesis by blast
  qed
qed

lemma afterFirst_here: "afterFirst pat (pat @ post) = Some post"
proof (cases "pat @ post")
  case Nil
  then show ?thesis by simp
next
  case (Cons c cs)
  have "afterFirst pat (c # cs) = Some (drop (length pat) (c # cs))"
    using Cons by (simp add: prefix_def) (metis append_Cons append_Nil list.exhaust)
  with Cons show ?thesis
    by (metis append_eq_conv_conj)
qed

lemma afterFirst_occurs: "xs = pre @ pat @ post \<Longrightarrow> \<exists>r. afterFirst pat xs = Some r \<and> suffix post r"
proof (induction pre arbitrary: xs)
  case Nil
  then show ?case by (simp add: afterFirst_here)
next
  case (Cons c pre)
  show ?case
  proof (cases "prefix pat xs")
    case True
    with Cons.prems have r: "afterFirst pat xs = Some (drop (length pat) xs)"
      by simp
    have "suffix post xs"
      using Cons.prems by (auto simp: suffix_def)
    moreover have "suffix (drop (length pat) xs) xs"
      by (rule suffix_drop)
    moreover have "length post \<le> length (drop (length pat) xs)"
      using Cons.prems by simp
    ultimately have "suffix post (drop (length pat) xs)"
      by (rule suffix_length_suffix)
    with r show ?thesis by blast
  next
    case False
    with Cons.prems have "afterFirst pat xs = afterFirst pat (pre @ pat @ post)"
      by simp
    with Cons.IH [OF refl] show ?thesis by simp
  qed
qed

lemma occurs_iff: "afterFirst pat xs \<noteq> None \<longleftrightarrow> (\<exists>pre post. xs = pre @ pat @ post)"
  using afterFirst_Some [of pat xs] afterFirst_occurs [of xs _ pat] by (metis option.exhaust option.distinct(1))

lemma styleImportLine_iff:
  "styleImportLine l \<longleftrightarrow>
     (\<exists>pre mid q post. l = pre @ js ''import'' @ mid @ js ''.css'' @ [q] @ post
                       \<and> (q = 0x22 \<or> q = 0x27))"
proof
  assume "styleImportLine l"
  then obtain r where r: "afterFirst (js ''import'') l = Some r"
    and q: "afterFirst (js ''.css'' @ [0x22]) r \<noteq> None \<or> afterFirst (js ''.css'' @ [0x27]) r \<noteq> None"
    by (auto simp: styleImportLine_def split: option.splits)
  from afterFirst_Some [OF r] obtain pre where l: "l = pre @ js ''import'' @ r" by blast
  from q obtain q' mid post where "r = mid @ (js ''.css'' @ [q']) @ post" and "q' = 0x22 \<or> q' = 0x27"
    unfolding occurs_iff by blast
  with l have "l = pre @ js ''import'' @ mid @ js ''.css'' @ [q'] @ post \<and> (q' = 0x22 \<or> q' = 0x27)"
    by simp
  then show "\<exists>pre mid q post. l = pre @ js ''import'' @ mid @ js ''.css'' @ [q] @ post
                       \<and> (q = 0x22 \<or> q = 0x27)"
    by blast
next
  assume "\<exists>pre mid q post. l = pre @ js ''import'' @ mid @ js ''.css'' @ [q] @ post
                       \<and> (q = 0x22 \<or> q = 0x27)"
  then obtain pre mid q post where l: "l = pre @ js ''import'' @ (mid @ (js ''.css'' @ [q]) @ post)"
    and q: "q = 0x22 \<or> q = 0x27"
    by auto
  from afterFirst_occurs [OF l] obtain r where r: "afterFirst (js ''import'') l = Some r"
    and "suffix (mid @ (js ''.css'' @ [q]) @ post) r"
    by blast
  then obtain x where "r = (x @ mid) @ (js ''.css'' @ [q]) @ post"
    by (auto simp: suffix_def)
  then have "afterFirst (js ''.css'' @ [q]) r \<noteq> None"
    unfolding occurs_iff by blast
  with r q show "styleImportLine l"
    by (auto simp: styleImportLine_def)
qed

lemma styleImportLine_nonempty: "styleImportLine l \<Longrightarrow> l \<noteq> []"
  by (auto simp: styleImportLine_def js_def)

lemma jsLines_nonempty: "jsLines t \<noteq> []"
  by (induction t) (auto split: list.splits)

text \<open>
  \<open>jsLines\<close> cuts a text at its line terminators: there is one line more than there
  are terminators, and the lines together are the text without them.
\<close>

lemma length_jsLines: "length (jsLines t) = Suc (length (filter isLineTerminator t))"
  by (induction t) (auto split: list.splits simp: jsLines_nonempty)

lemma concat_jsLines: "concat (jsLines t) = filter (\<lambda>c. \<not> isLineTerminator c) t"
  by (induction t) (auto split: list.splits)

lemma jsLines_clean: "l \<in> set (jsLines t) \<Longrightarrow> c \<in> set l \<Longrightarrow> \<not> isLineTerminator c"
proof (induction t arbitrary: l)
  case Nil
  then show ?case by simp
next
  case (Cons a t)
  show ?case
  proof (cases "isLineTerminator a")
    case True
    with Cons show ?thesis by auto
  next
    case False
    obtain l0 ls where t: "jsLines t = l0 # ls"
      using jsLines_nonempty [of t] by (cases "jsLines t") auto
    with False Cons.prems(1) have "l = a # l0 \<or> l \<in> set ls"
      by simp
    then show ?thesis
    proof
      assume "l = a # l0"
      with Cons.prems(2) have "c = a \<or> c \<in> set l0" by simp
      with False Cons.IH [of l0] t show ?thesis by auto
    next
      assume "l \<in> set ls"
      with Cons.IH [of l] Cons.prems(2) t show ?thesis by simp
    qed
  qed
qed

lemma jsLines_line:
  "\<forall>c\<in>set l. \<not> isLineTerminator c \<Longrightarrow> jsLines (l @ newline # t) = l # jsLines t"
  by (induction l) (simp_all add: newline_def isLineTerminator_def)

lemma joinWith_nonempty: "ls \<noteq> [] \<Longrightarrow> \<forall>l\<in>set ls. l \<noteq> [] \<Longrightarrow> joinWith sep ls \<noteq> []"
  by (induction sep ls rule: joinWith.induct) auto

lemma jsLines_join:
  "ls \<noteq> [] \<Longrightarrow> \<forall>l\<in>set ls. \<forall>c\<in>set l. \<not> isLineTerminator c \<Longrightarrow>
     jsLines (joinWith [newline] ls @ newline # t) = ls @ jsLines t"
proof (induction "[newline]" ls rule: joinWith.induct)
  case 1
  then show ?case by simp
next
  case (2 x)
  then show ?case by (simp add: jsLines_line)
next
  case (3 x y ys)
  then show ?case by (simp add: jsLines_line)
qed

lemma jsLines_AppJsContent:
  "jsLines (AppJsContent env u (Some (joinWith [newline] (styleImports text))))
     = styleImports text @ jsLines (appBody env u)"
proof (cases "styleImports text = []")
  case True
  then show ?thesis by (simp add: AppJsContent_def)
next
  case False
  have "\<forall>l\<in>set (styleImports text). l \<noteq> []"
    by (auto simp: styleImports_def styleImportLine_nonempty)
  with False have "joinWith [newline] (styleImports text) \<noteq> []"
    by (rule joinWith_nonempty)
  moreover have "\<forall>l\<in>set (styleImports text). \<forall>c\<in>set l. \<not> isLineTerminator c"
    by (auto simp: styleImports_def dest: jsLines_clean)
  ultimately show ?thesis
    using False by (simp add: AppJsContent_def jsLines_join)
qed

text \<open>
  C4. When an entry point exists and the operator confirms, a run that returns has written,
  at the path of the entry point that was read (\<^verbatim>\<open>_app.js\<close> if that exists, \<^verbatim>\<open>_app.tsx\<close>
  otherwise), a text whose lines are the lines of the old text that match the pattern, in
  their order, followed by the lines of the generated body. A line matches when it has
  \<^verbatim>\<open>import\<close> and, after it, \<^verbatim>\<open>.css\<close> and a quote.
\<close>

theorem style_imports_kept:
  assumes "tinaSetup env (Some True) Done s = Done s'"
    and "u = pathExistsSync (fsys s) (pjoin (baseDir env) [''src''])"
    and "fsys s (appPath env u) \<noteq> None \<or> fsys s (appPathTS env u) \<noteq> None"
    and "ext = (if fsys s (appPath env u) \<noteq> None then ''.js'' else ''.tsx'')"
  shows "\<exists>fileContent regenerated.
           fsys s (pjoin (pagesPath env u) [''_app'' @ ext]) = Some (File fileContent)
         \<and> fsys s' (pjoin (pagesPath env u) [''_app'' @ ext]) = Some (File regenerated)
         \<and> jsLines regenerated
             = filter styleImportLine (jsLines fileContent) @ jsLines (appBody env u)
         \<and> (\<forall>l. styleImportLine l \<longleftrightarrow>
                (\<exists>pre mid q post. l = pre @ js ''import'' @ mid @ js ''.css'' @ [q] @ post
                                  \<and> (q = 0x22 \<or> q = 0x27)))"
proof -
  from tinaSetup_confirmed [OF assms] obtain fileContent where
    "fsys s (pjoin (pagesPath env u) [''_app'' @ ext]) = Some (File fileContent)"
    and "fsys s' (pjoin (pagesPath env u) [''_app'' @ ext])
           = Some (File (AppJsContent env u
                           (Some (joinWith [newline] (styleImports fileContent)))))"
    by blast
  moreover have "jsLines (AppJsContent env u (Some (joinWith [newline] (styleImports fileContent))))
                   = filter styleImportLine (jsLines fileContent) @ jsLines (appBody env u)"
    by (simp add: jsLines_AppJsContent) (simp add: styleImports_def)
  ultimately show ?thesis
    using styleImportLine_iff by blast
qed

theorem style_imports_kept_witness:
  "returns (tinaSetup exampleEnv (Some True) Done (exampleState exampleBusyFs))
   \<and> exampleBusyFs [''app'', ''pages'', ''_app.js''] = Some (File exampleAppText)
   \<and> filter styleImportLine (jsLines exampleAppText)
       = [js ''import '' @ [0x27] @ js ''../styles/a.css'' @ [0x27],
          js ''import x from '' @ [0x22] @ js ''./b.css'' @ [0x22] @ js '';'']
   \<and> (\<exists>regenerated.
         fsys (stateOf (tinaSetup exampleEnv (Some True) Done (exampleState exampleBusyFs)))
           [''app'', ''pages'', ''_app.js''] = Some (File regenerated)
       \<and> jsLines regenerated
           = [js ''import '' @ [0x27] @ js ''../styles/a.css'' @ [0x27],
              js ''import x from '' @ [0x22] @ js ''./b.css'' @ [0x22] @ js '';'',
              js ''app''])"
proof -
  have u: "False = pathExistsSync (fsys (exampleState exampleBusyFs))
                     (pjoin (baseDir exampleEnv) [''src''])"
    by code_simp
  have a: "fsys (exampleState exampleBusyFs) (appPath exampleEnv False) \<noteq> None
           \<or> fsys (exampleState exampleBusyFs) (appPathTS exampleEnv False) \<noteq> None"
    by code_simp
  have e: "''.js'' = (if fsys (exampleState exampleBusyFs) (appPath exampleEnv False) \<noteq> None
                      then ''.js'' else ''.tsx'')"
    by code_simp
  have p: "pjoin (pagesPath exampleEnv False) [''_app'' @ ''.js''] = [''app'', ''pages'', ''_app.js'']"
    by code_simp
  have f: "exampleBusyFs [''app'', ''pages'', ''_app.js''] = Some (File exampleAppText)"
    by code_simp
  have m: "filter styleImportLine (jsLines exampleAppText)
             = [js ''import '' @ [0x27] @ js ''../styles/a.css'' @ [0x27],
                js ''import x from '' @ [0x22] @ js ''./b.css'' @ [0x22] @ js '';'']"
    by code_simp
  have b: "jsLines (appBody exampleEnv False) = [js ''app'']"
    by code_simp
  have r: "returns (tinaSetup exampleEnv (Some True) Done (exampleState exampleBusyFs))"
    by code_simp
  then obtain s' where
    s': "tinaSetup exampleEnv (Some True) Done (exampleState exampleBusyFs) = Done s'"
    by (auto simp: returns_def split: outcome.splits)
  from style_imports_kept [OF s' u a e] f m b r s'
  show ?thesis
    unfolding p by (auto simp: exampleState_def)
qed

section \<open>The provider files\<close>

lemma ensureProviders_written:
  assumes "ensureProviders env s = Done s'"
    and "fsys s (TinaProviderPath env) = None" and "fsys s (TinaDynamicProvider env) = None"
  shows "fsys s' (TinaProviderPath env) = Some (File (TinaProvider env))"
    and "fsys s' (TinaDynamicProvider env) = Some (File (TinaProviderDynamic env))"
  using assms
  by (auto simp: ensureProviders_def existsSync_def andThen_eq_Done writeFileSync_Done
                 TinaProviderPath_def TinaDynamicProvider_def pjoin_def)

text \<open>
  C10. When one of \<^verbatim>\<open>TinaProvider.js\<close> and \<^verbatim>\<open>TinaDynamicProvider.js\<close> is there, a run
  leaves both paths as they are, however it ends: the missing one is not created. When a
  run returns and neither was there, both have been written.
\<close>

theorem providers_both_or_neither:
  "(fsys s (TinaProviderPath env) \<noteq> None \<or> fsys s (TinaDynamicProvider env) \<noteq> None \<longrightarrow>
      fsys (stateOf (tinaSetup env answer Done s)) (TinaProviderPath env)
        = fsys s (TinaProviderPath env)
    \<and> fsys (stateOf (tinaSetup env answer Done s)) (TinaDynamicProvider env)
        = fsys s (TinaDynamicProvider env))
   \<and> (tinaSetup env answer Done s = Done s'
      \<and> fsys s (TinaProviderPath env) = None \<and> fsys s (TinaDynamicProvider env) = None \<longrightarrow>
      fsys s' (TinaProviderPath env) = Some (File (TinaProvider env))
    \<and> fsys s' (TinaDynamicProvider env) = Some (File (TinaProviderDynamic env)))"
proof (intro conjI impI)
  assume ex: "fsys s (TinaProviderPath env) \<noteq> None \<or> fsys s (TinaDynamicProvider env) \<noteq> None"
  note fr = tinaSetup_frame [of env answer s]
  show "fsys (stateOf (tinaSetup env answer Done s)) (TinaProviderPath env)
          = fsys s (TinaProviderPath env)"
    by (rule evolves_same [OF fr])
       (use ex in \<open>auto simp: writeSet_def dirSet_def Let_def path_defs in_ancestors\<close>)
  show "fsys (stateOf (tinaSetup env answer Done s)) (TinaDynamicProvider env)
          = fsys s (TinaDynamicProvider env)"
    by (rule evolves_same [OF fr])
       (use ex in \<open>auto simp: writeSet_def dirSet_def Let_def path_defs in_ancestors\<close>)
next
  assume h: "tinaSetup env answer Done s = Done s'
      \<and> fsys s (TinaProviderPath env) = None \<and> fsys s (TinaDynamicProvider env) = None"
  then have run: "tinaSetup env answer Done s = Done s'" by simp
  from run
  have "fsys s' (TinaProviderPath env) = Some (File (TinaProvider env))
      \<and> fsys s' (TinaDynamicProvider env) = Some (File (TinaProviderDynamic env))"
  proof (cases rule: tinaSetup_anatomy)
    case (steps s1 s2 s3 s4 s5 u)
    note e1 = steps(8) and r2 = steps(3)
    have "fsys s1 (TinaProviderPath env) = None"
      using evolves_same [OF e1, of "TinaProviderPath env"] h
      by (simp add: path_defs in_ancestors)
    moreover have "fsys s1 (TinaDynamicProvider env) = None"
      using evolves_same [OF e1, of "TinaDynamicProvider env"] h
      by (simp add: path_defs in_ancestors)
    ultimately have w: "fsys s2 (TinaProviderPath env) = Some (File (TinaProvider env))"
      "fsys s2 (TinaDynamicProvider env) = Some (File (TinaProviderDynamic env))"
      using ensureProviders_written [OF r2] by simp_all
    note rest =
      evolves_trans [OF steps(10) evolves_trans [OF steps(11) evolves_trans [OF steps(12,13)]]]
    have "fsys s' (TinaProviderPath env) = fsys s2 (TinaProviderPath env)"
      by (rule evolves_kept [OF rest]) (simp add: path_defs, simp add: w)
    moreover have "fsys s' (TinaDynamicProvider env) = fsys s2 (TinaDynamicProvider env)"
      by (rule evolves_kept [OF rest]) (simp add: path_defs, simp add: w)
    ultimately show ?thesis
      using w by simp
  qed
  then show "fsys s' (TinaProviderPath env) = Some (File (TinaProvider env))"
    and "fsys s' (TinaDynamicProvider env) = Some (File (TinaProviderDynamic env))"
    by simp_all
qed

theorem providers_both_or_neither_witness:
  "exampleBusyFs (TinaProviderPath exampleEnv) = Some (File (js ''mine''))
   \<and> exampleBusyFs (TinaDynamicProvider exampleEnv) = None
   \<and> fsys (stateOf (tinaSetup exampleEnv (Some True) Done (exampleState exampleBusyFs)))
        (TinaProviderPath exampleEnv) = Some (File (js ''mine''))
   \<and> fsys (stateOf (tinaSetup exampleEnv (Some True) Done (exampleState exampleBusyFs)))
        (TinaDynamicProvider exampleEnv) = None
   \<and> returns (tinaSetup exampleEnv None Done (exampleState exampleFs))
   \<and> fsys (stateOf (tinaSetup exampleEnv None Done (exampleState exampleFs)))
        (TinaProviderPath exampleEnv) = Some (File (js ''provider''))
   \<and> fsys (stateOf (tinaSetup exampleEnv None Done (exampleState exampleFs)))
        (TinaDynamicProvider exampleEnv) = Some (File (js ''dynamic provider''))"
proof -
  have a: "exampleBusyFs (TinaProviderPath exampleEnv) = Some (File (js ''mine''))"
    and b: "exampleBusyFs (TinaDynamicProvider exampleEnv) = None"
    by code_simp+
  have c: "exampleFs (TinaProviderPath exampleEnv) = None"
    and d: "exampleFs (TinaDynamicProvider exampleEnv) = None"
    by code_simp+
  have r: "returns (tinaSetup exampleEnv None Done (exampleState exampleFs))"
    by code_simp
  then obtain s' where s': "tinaSetup exampleEnv None Done (exampleState exampleFs) = Done s'"
    by (auto simp: returns_def split: outcome.splits)
  have t: "TinaProvider exampleEnv = js ''provider''"
    "TinaProviderDynamic exampleEnv = js ''dynamic provider''"
    by (simp_all add: exampleEnv_def)
  from providers_both_or_neither
         [of "exampleState exampleBusyFs" exampleEnv "Some True" "exampleState exampleBusyFs"]
       providers_both_or_neither [of "exampleState exampleFs" exampleEnv None s']
       a b c d r s' t
  show ?thesis
    by (simp add: exampleState_def)
qed

section \<open>Where the generated files go\<close>

text \<open>
  A file that a run has generated (a path that holds a file after the run, and did not
  hold the same before) is the sample post, one of the two provider files, the manifest,
  or the entry point, the demo page or the admin page; these last are under
  \<^verbatim>\<open>src/pages\<close> when the working directory has a \<^verbatim>\<open>src\<close> folder and under \<^verbatim>\<open>pages\<close>
  when it has none. Without a \<^verbatim>\<open>src\<close> folder every generated file is under the working
  directory and none is under \<^verbatim>\<open>src\<close>.
\<close>

lemma generated_paths:
  assumes "u = pathExistsSync (fsys s) (pjoin (baseDir env) [''src''])"
    and "fsys (stateOf (tinaSetup env answer Done s)) p = Some (File content)"
    and "fsys (stateOf (tinaSetup env answer Done s)) p \<noteq> fsys s p"
  shows "(p = blogPostPath env
          \<or> p = TinaProviderPath env
          \<or> p = TinaDynamicProvider env
          \<or> p = packagePath env
          \<or> p = baseDir env @ (if u then [''src''] else []) @ [''pages'', ''_app.js'']
          \<or> p = baseDir env @ (if u then [''src''] else []) @ [''pages'', ''_app.tsx'']
          \<or> p = baseDir env @ (if u then [''src''] else [])
                  @ [''pages'', ''demo'', ''blog'', ''[filename].js'']
          \<or> p = baseDir env @ (if u then [''src''] else []) @ [''pages'', ''admin.js''])
       \<and> (if u then True
          else prefix (baseDir env) p \<and> \<not> prefix (baseDir env @ [''src'']) p)"
proof -
  from tinaSetup_frame [of env answer s] assms(2,3)
  have "p \<in> set (writeSet env answer (fsys s))"
    unfolding evolves_def by (metis node.distinct(1) option.inject)
  then have "p = blogPostPath env
          \<or> p = TinaProviderPath env
          \<or> p = TinaDynamicProvider env
          \<or> p = packagePath env
          \<or> p = baseDir env @ (if u then [''src''] else []) @ [''pages'', ''_app.js'']
          \<or> p = baseDir env @ (if u then [''src''] else []) @ [''pages'', ''_app.tsx'']
          \<or> p = baseDir env @ (if u then [''src''] else [])
                  @ [''pages'', ''demo'', ''blog'', ''[filename].js'']
          \<or> p = baseDir env @ (if u then [''src''] else []) @ [''pages'', ''admin.js'']"
    unfolding writeSet_def Let_def assms(1) [symmetric]
    by (auto simp: pagesPath_def appPath_def appPathTS_def tinaBlogPagePath_def
                   tinaBlogPagePathFile_def adminPath_def pjoin_def
             split: if_splits)
  then show ?thesis
    by (auto simp: path_defs)
qed

text \<open>
  C2. With a \<^verbatim>\<open>src\<close> folder in the working directory, a run generates the sample post
  at \<^verbatim>\<open>content/posts/HelloWorld.md\<close> and the provider files in \<^verbatim>\<open>.tina/components\<close>
  under the working directory itself, not under \<^verbatim>\<open>src\<close>, while the admin page of the
  same run goes under \<^verbatim>\<open>src/pages\<close>. The source notes, above the constants of these
  paths, that it should handle the \<^verbatim>\<open>src\<close> folder there.
\<close>

theorem sample_content_outside_src:
  "exampleSrcFs (baseDir exampleEnv @ [''src'']) = Some Dir
   \<and> returns (tinaSetup exampleEnv None Done (exampleState exampleSrcFs))
   \<and> exampleSrcFs (blogPostPath exampleEnv) = None
   \<and> fsys (stateOf (tinaSetup exampleEnv None Done (exampleState exampleSrcFs)))
        (blogPostPath exampleEnv) = Some (File (blogPost exampleEnv))
   \<and> blogPostPath exampleEnv = [''app'', ''content'', ''posts'', ''HelloWorld.md'']
   \<and> \<not> prefix (baseDir exampleEnv @ [''src'']) (blogPostPath exampleEnv)
   \<and> exampleSrcFs (TinaProviderPath exampleEnv) = None
   \<and> fsys (stateOf (tinaSetup exampleEnv None Done (exampleState exampleSrcFs)))
        (TinaProviderPath exampleEnv) = Some (File (TinaProvider exampleEnv))
   \<and> TinaProviderPath exampleEnv = [''app'', ''.tina'', ''components'', ''TinaProvider.js'']
   \<and> \<not> prefix (baseDir exampleEnv @ [''src'']) (TinaProviderPath exampleEnv)
   \<and> fsys (stateOf (tinaSetup exampleEnv None Done (exampleState exampleSrcFs)))
        [''app'', ''src'', ''pages'', ''admin.js''] = Some (File (adminPage exampleEnv))"
proof -
  have "exampleSrcFs (baseDir exampleEnv @ [''src'']) = Some Dir"
    by code_simp
  moreover have "returns (tinaSetup exampleEnv None Done (exampleState exampleSrcFs))"
    by code_simp
  moreover have "exampleSrcFs (blogPostPath exampleEnv) = None"
    by code_simp
  moreover have "fsys (stateOf (tinaSetup exampleEnv None Done (exampleState exampleSrcFs)))
        (blogPostPath exampleEnv) = Some (File (blogPost exampleEnv))"
    by code_simp
  moreover have "blogPostPath exampleEnv = [''app'', ''content'', ''posts'', ''HelloWorld.md'']"
    by code_simp
  moreover have "\<not> prefix (baseDir exampleEnv @ [''src'']) (blogPostPath exampleEnv)"
    by code_simp
  moreover have "exampleSrcFs (TinaProviderPath exampleEnv) = None"
    by code_simp
  moreover have "fsys (stateOf (tinaSetup exampleEnv None Done (exampleState exampleSrcFs)))
        (TinaProviderPath exampleEnv) = Some (File (TinaProvider exampleEnv))"
    by code_simp
  moreover
  have "TinaProviderPath exampleEnv = [''app'', ''.tina'', ''components'', ''TinaProvider.js'']"
    by code_simp
  moreover have "\<not> prefix (baseDir exampleEnv @ [''src'']) (TinaProviderPath exampleEnv)"
    by code_simp
  moreover have "fsys (stateOf (tinaSetup exampleEnv None Done (exampleState exampleSrcFs)))
        [''app'', ''src'', ''pages'', ''admin.js''] = Some (File (adminPage exampleEnv))"
    by code_simp
  ultimately show ?thesis
    by blast
qed

section \<open>Running the scaffold step again\<close>

lemma update_commute:
  "k \<noteq> k' \<Longrightarrow> k \<in> fst ` set zs \<Longrightarrow>
     AList.update k' v' (AList.update k v zs) = AList.update k v (AList.update k' v' zs)"
  by (induction zs) auto

lemma keys_fold_update:
  "fst ` set es \<subseteq> fst ` set (fold (\<lambda>kv. AList.update (fst kv) (JStr (snd kv))) table es)"
proof (induction table arbitrary: es)
  case Nil
  then show ?case by simp
next
  case (Cons x table)
  have "fst ` set es \<subseteq> fst ` set (AList.update (fst x) (JStr (snd x)) es)"
    by (auto simp: dom_update)
  also have "\<dots> \<subseteq> fst ` set (fold (\<lambda>kv. AList.update (fst kv) (JStr (snd kv))) table
                               (AList.update (fst x) (JStr (snd x)) es))"
    by (rule Cons.IH)
  finally show ?case by simp
qed

lemma fold_update_absorb:
  "k \<in> fst ` set table \<Longrightarrow> k \<in> fst ` set zs \<Longrightarrow>
     fold (\<lambda>kv. AList.update (fst kv) (JStr (snd kv))) table (AList.update k v zs)
       = fold (\<lambda>kv. AList.update (fst kv) (JStr (snd kv))) table zs"
proof (induction table arbitrary: zs)
  case Nil
  then show ?case by simp
next
  case (Cons x table)
  show ?case
  proof (cases "fst x = k")
    case True
    then show ?thesis by simp
  next
    case False
    with Cons.prems have k: "k \<in> fst ` set table" by auto
    from Cons.prems(2) have "k \<in> fst ` set (AList.update (fst x) (JStr (snd x)) zs)"
      by (auto simp: dom_update)
    from Cons.IH [OF k this] False Cons.prems(2) show ?thesis
      by (simp add: update_commute [of k "fst x"])
  qed
qed

lemma fold_update_idem:
  "fold (\<lambda>kv. AList.update (fst kv) (JStr (snd kv))) table
     (fold (\<lambda>kv. AList.update (fst kv) (JStr (snd kv))) table es)
   = fold (\<lambda>kv. AList.update (fst kv) (JStr (snd kv))) table es"
proof (induction table arbitrary: es)
  case Nil
  then show ?case by simp
next
  case (Cons x table)
  let ?G = "fold (\<lambda>kv. AList.update (fst kv) (JStr (snd kv))) table"
  let ?es = "AList.update (fst x) (JStr (snd x)) es"
  have in_es: "fst x \<in> fst ` set ?es"
    by (simp add: dom_update)
  with keys_fold_update [of ?es table] have in_G: "fst x \<in> fst ` set (?G ?es)"
    by auto
  have "?G (AList.update (fst x) (JStr (snd x)) (?G ?es)) = ?G (?G ?es)"
  proof (cases "fst x \<in> fst ` set table")
    case True
    from fold_update_absorb [OF True in_G] show ?thesis .
  next
    case False
    then have "map_of (rev table) (fst x) = None"
      by (simp add: map_of_eq_None_iff)
    then have "map_of (?G ?es) (fst x) = Some (JStr (snd x))"
      by (simp add: map_of_fold_update update_conv')
    then have "AList.update (fst x) (JStr (snd x)) (?G ?es) = ?G ?es"
      by (rule update_triv)
    then show ?thesis by simp
  qed
  with Cons.IH [of ?es] show ?case by simp
qed

lemma extendNextScripts_idem:
  "extendNextScripts env (extendNextScripts env v) = extendNextScripts env v"
  by (simp add: extendNextScripts_def fold_update_idem)

lemma newPackOf_again:
  assumes "getScripts (newPackOf env pack scripts) = Inr (Some x)"
  shows "newPackOf env (newPackOf env pack scripts) (Some x) = newPackOf env pack scripts"
proof -
  define old where
    "old = (case scripts of None \<Rightarrow> JObj [] | Some v \<Rightarrow> if truthy v then v else JObj [])"
  define new where "new = extendNextScripts env old"
  have n: "newPackOf env pack scripts = JObj (AList.update (js ''scripts'') new (ownEntries pack))"
    by (simp add: newPackOf_def old_def new_def)
  with assms have x: "x = new"
    by (simp add: update_conv')
  have "truthy new"
    by (simp add: new_def extendNextScripts_def)
  moreover have "extendNextScripts env new = new"
    unfolding new_def by (rule extendNextScripts_idem)
  ultimately
  have "newPackOf env (JObj (AList.update (js ''scripts'') new (ownEntries pack))) (Some new)
          = JObj (AList.update (js ''scripts'') new (ownEntries pack))"
    by (simp add: newPackOf_def)
  with n x show ?thesis by simp
qed

lemma getScripts_newPackOf: "\<exists>x. getScripts (newPackOf env pack scripts) = Inr (Some x)"
  by (simp add: newPackOf_def Let_def update_conv')

lemma updateManifest_again:
  assumes "fsys s (packagePath env)
             = Some (File (JSON_stringify (numberToString env) 2 (newPackOf env pack scripts)))"
    and "readsBack env (newPackOf env pack scripts)"
    and "fsys s (baseDir env) = Some Dir"
  shows "\<exists>s'. updateManifest env s = Done s' \<and> fsys s' = fsys s"
proof -
  obtain x where x: "getScripts (newPackOf env pack scripts) = Inr (Some x)"
    using getScripts_newPackOf by blast
  have b: "butlast (packagePath env) = baseDir env"
    by (simp add: packagePath_def pjoin_def)
  have "(fsys s)(packagePath env \<mapsto>
          File (JSON_stringify (numberToString env) 2 (newPackOf env pack scripts))) = fsys s"
    using assms(1) by (rule map_upd_triv)
  with assms x newPackOf_again [OF x] b show ?thesis
    by (simp add: updateManifest_def readFileSync_def readsBack_def writeFileSync_Done)
qed

lemma ensureAdminPage_again:
  assumes "fsys s (pjoin (pagesPath env u) [''admin'']) \<noteq> None
           \<or> fsys s (adminPath env u) = Some (File (adminPage env))
             \<and> fsys s (pagesPath env u) = Some Dir"
  shows "\<exists>s'. ensureAdminPage env u Done s = Done s' \<and> fsys s' = fsys s"
proof (cases "fsys s (pjoin (pagesPath env u) [''admin'']) \<noteq> None")
  case True
  then show ?thesis by (simp add: ensureAdminPage_taken)
next
  case False
  with assms have a: "fsys s (adminPath env u) = Some (File (adminPage env))"
    and d: "fsys s (pagesPath env u) = Some Dir"
    by auto
  have b: "butlast (adminPath env u) = pagesPath env u"
    by (simp add: adminPath_def pjoin_def butlast_append)
  have "(fsys s)(adminPath env u \<mapsto> File (adminPage env)) = fsys s"
    using a by (rule map_upd_triv)
  with False a d b show ?thesis
    by (simp add: ensureAdminPage_def pathExistsSync_def outputFileSync_def existsSync_def
                  writeFileSync_Done)
qed

text \<open>
  C5. After a run that has returned, a second run whose prompt is not confirmed returns
  too and leaves the file system exactly as the first run left it, when \<^verbatim>\<open>JSON.parse\<close>
  reads the manifest that the first run has written back as the value that was
  serialised.
\<close>

theorem second_run_changes_nothing:
  assumes "tinaSetup env answer1 Done s = Done s1"
    and "answer2 \<noteq> Some True"
    and "newManifest env (fsys s) = Some v"
    and "readsBack env v"
  shows "\<exists>s2. tinaSetup env answer2 Done s1 = Done s2 \<and> fsys s2 = fsys s1"
proof -
  define u where "u = pathExistsSync (fsys s) (pjoin (baseDir env) [''src''])"
  note fr = tinaSetup_frame [of env answer1 s, unfolded assms(1) stateOf.simps]
  \<comment> \<open>the layout is the same\<close>
  have u1: "pathExistsSync (fsys s1) (pjoin (baseDir env) [''src'']) = u"
  proof (cases u)
    case True
    with evolves_exists [OF fr, of "pjoin (baseDir env) [''src'']"] show ?thesis
      by (simp add: u_def pathExistsSync_def)
  next
    case False
    then have n: "fsys s (pjoin (baseDir env) [''src'']) = None"
      by (simp add: u_def pathExistsSync_def)
    have "fsys s1 (pjoin (baseDir env) [''src'']) = fsys s (pjoin (baseDir env) [''src''])"
      by (rule evolves_same [OF fr])
         (use n in \<open>auto simp: writeSet_def dirSet_def Let_def pathExistsSync_def path_defs
                             in_ancestors\<close>)
    with n False show ?thesis
      by (simp add: pathExistsSync_def)
  qed
  \<comment> \<open>the manifest\<close>
  from tinaSetup_manifest [OF assms(1)] obtain content pack scripts where
    m: "fsys s (packagePath env) = Some (File content)" "parseJSON env content = Some pack"
    "getScripts pack = Inr scripts"
    and m1: "fsys s1 (packagePath env)
               = Some (File (JSON_stringify (numberToString env) 2 (newPackOf env pack scripts)))"
    and d1: "fsys s1 (baseDir env) = Some Dir"
    by blast
  from m assms(3) have v: "v = newPackOf env pack scripts"
    by (simp add: newManifest_def readFileSync_def)
  \<comment> \<open>what the first run has put in place\<close>
  from assms(1)
  have q: "fsys s1 (blogPostPath env) \<noteq> None
         \<and> (fsys s1 (TinaProviderPath env) \<noteq> None \<or> fsys s1 (TinaDynamicProvider env) \<noteq> None)
         \<and> (fsys s1 (appPath env u) \<noteq> None \<or> fsys s1 (appPathTS env u) \<noteq> None)
         \<and> fsys s1 (tinaBlogPagePathFile env u) \<noteq> None
         \<and> (fsys s1 (pjoin (pagesPath env u) [''admin'']) \<noteq> None
            \<or> fsys s1 (adminPath env u) = Some (File (adminPage env))
              \<and> fsys s1 (pagesPath env u) = Some Dir)"
  proof (cases rule: tinaSetup_anatomy)
    case (steps t1 t2 t3 t4 t5 u')
    from steps(1) have u': "u' = u" by (simp add: u_def)
    note e2 = steps(9) and e3 = steps(10) [unfolded u'] and e4 = steps(11) [unfolded u']
      and e5 = steps(12) and e6 = steps(13) [unfolded u']
    note from4 = evolves_trans [OF e5 e6]
    note from3 = evolves_trans [OF e4 from4]
    note from2 = evolves_trans [OF e3 from3]
    note from1 = evolves_trans [OF e2 from2]
    have "fsys s1 (blogPostPath env) \<noteq> None"
      using evolves_exists [OF from1] ensureSampleContent_Done [OF steps(2)] by blast
    moreover
    have "fsys s1 (TinaProviderPath env) \<noteq> None \<or> fsys s1 (TinaDynamicProvider env) \<noteq> None"
      using evolves_exists [OF from2] ensureProviders_Done [OF steps(3)] by blast
    moreover
    have "fsys s1 (appPath env u) \<noteq> None \<or> fsys s1 (appPathTS env u) \<noteq> None"
      using evolves_exists [OF from3] ensureEntryPoint_Done(1) [OF steps(4)] u' by blast
    moreover
    have "fsys s1 (tinaBlogPagePathFile env u) \<noteq> None"
      using evolves_exists [OF from4] ensureDemoPage_Done(1) [OF steps(5)] u' by blast
    moreover
    have "fsys s1 (pjoin (pagesPath env u) [''admin'']) \<noteq> None
            \<or> fsys s1 (adminPath env u) = Some (File (adminPage env))
              \<and> fsys s1 (pagesPath env u) = Some Dir"
    proof (cases "fsys t5 (pjoin (pagesPath env u) [''admin'']) = None")
      case True
      with ensureAdminPage_written(1,2) [OF steps(7) [unfolded u']] show ?thesis by simp
    next
      case False
      with evolves_exists [OF e6] show ?thesis by blast
    qed
    ultimately show ?thesis by blast
  qed
  \<comment> \<open>the second run, step by step\<close>
  let ?s2 = "s1\<lparr>loggerLevel := ''info''\<rparr>"
  let ?s3 = "logger_info (HeadsUp (AppJsContent env u None))
               (emit (Prompt (if fsys ?s2 (appPath env u) \<noteq> None then ''.js'' else ''.tsx'')) ?s2)"
  let ?s4 = "logger_info AddingContentFolderDone ?s3"
  have r1: "ensureSampleContent env s1 = Done s1"
    using q by (simp add: ensureSampleContent_def pathExistsSync_def)
  have r2: "ensureProviders env s1 = Done s1"
    using q by (auto simp: ensureProviders_def existsSync_def)
  have r3: "ensureEntryPoint env u answer2 ?s2 = Done ?s3"
    by (rule ensureEntryPoint_declined) (use q assms(2) in simp_all)
  have r4: "ensureDemoPage env u ?s3 = Done ?s3"
    using q by (simp add: ensureDemoPage_def pathExistsSync_def)
  from updateManifest_again [of ?s4 env pack scripts] m1 d1 assms(4) v
  obtain s5 where r5: "updateManifest env ?s4 = Done s5" and f5: "fsys s5 = fsys s1"
    by auto
  from ensureAdminPage_again [of s5 env u] q f5
  obtain s2 where r6: "ensureAdminPage env u Done s5 = Done s2" and f6: "fsys s2 = fsys s1"
    by auto
  from r1 r2 r3 r4 r5 r6 have "tinaSetup env answer2 Done s1 = Done s2"
    unfolding tinaSetup_Done u1 by blast
  with f6 show ?thesis by blast
qed

theorem second_run_changes_nothing_witness:
  "returns (tinaSetup exampleEnv None Done (exampleState exampleFs))
   \<and> newManifest exampleEnv exampleFs = Some exampleNewManifest
   \<and> readsBack exampleEnv exampleNewManifest
   \<and> returns (tinaSetup exampleEnv (Some False) Done
                (stateOf (tinaSetup exampleEnv None Done (exampleState exampleFs))))
   \<and> fsys (stateOf (tinaSetup exampleEnv (Some False) Done
                      (stateOf (tinaSetup exampleEnv None Done (exampleState exampleFs)))))
       = fsys (stateOf (tinaSetup exampleEnv None Done (exampleState exampleFs)))"
proof -
  have r: "returns (tinaSetup exampleEnv None Done (exampleState exampleFs))"
    by code_simp
  then obtain s1 where s1: "tinaSetup exampleEnv None Done (exampleState exampleFs) = Done s1"
    by (auto simp: returns_def split: outcome.splits)
  have a: "Some False \<noteq> Some True"
    by simp
  have m: "newManifest exampleEnv (fsys (exampleState exampleFs)) = Some exampleNewManifest"
    by code_simp
  have b: "readsBack exampleEnv exampleNewManifest"
    by code_simp
  from second_run_changes_nothing [OF s1 a m b] r s1 m b
  show ?thesis
    by (auto simp: returns_def exampleState_def)
qed

end
